theory Spec2Isabelle
  imports Complex_Main "HOL-Library.Sublist"
begin

section \<open>Data model\<close>

text \<open>
  The script \<^verbatim>\<open>crypto_indicators.py\<close> fetches minute candles, derives a trailing simple
  moving average and an overall percentage change, and writes a CSV file.

  A candle is the dictionary built in \<^verbatim>\<open>fetch_ohlcv\<close> (lines 88-95); it always has the
  same six keys, so it is a record here. The field \<^verbatim>\<open>open\<close> is called \<open>open_price\<close>
  because \<open>open\<close> is a constant of the library. Python's integers are unbounded, hence
  \<open>int\<close>.

  The record is parametric in the type of the five prices. In the fetch stage and in the
  indicator engine a price is a real number: a finite float, with the arithmetic of the
  indicators taken as exact (rounding in the last place and overflow of sums are not
  modelled there). The writer formats whatever float it is given, so its prices range
  over \<open>pyfloat\<close>, which also has the values that are not finite.
\<close>

record 'n candle =
  timestamp :: int
  open_price :: 'n
  high :: 'n
  low :: 'n
  close :: 'n
  volume :: 'n

text \<open>
  A Python float as the writer sees it: a finite value (\<open>Finite 0\<close> is positive zero),
  negative zero, the two infinities, or a NaN.
\<close>

datatype pyfloat = Finite real | NegZero | PosInf | NegInf | NaN

text \<open>
  Every way in which the script can stop abnormally: \<^verbatim>\<open>sys.exit(n)\<close> raises
  \<open>SystemExit n\<close>; the others are the exceptions of Python's built-in operations, none of
  which the script catches.
\<close>

datatype error =
    SystemExit int
  | IndexError
  | KeyError
  | ZeroDivisionError
  | OverflowError
  | TypeError
  | ValueError

section \<open>Python's built-in operations\<close>

text \<open>\<^verbatim>\<open>xs[i]\<close>: a negative index counts from the end, anything out of range raises.\<close>

definition getitem :: "'a list \<Rightarrow> int \<Rightarrow> error + 'a" where
  "getitem xs i =
     (if 0 \<le> i \<and> i < int (length xs) then Inr (xs ! nat i)
      else if i < 0 \<and> - int (length xs) \<le> i then Inr (xs ! nat (int (length xs) + i))
      else Inl IndexError)"

text \<open>\<^verbatim>\<open>range(a, b)\<close>: the integers from \<open>a\<close> up to, not including, \<open>b\<close>.\<close>

definition range_py :: "int \<Rightarrow> int \<Rightarrow> int list" where
  "range_py a b = [a..b - 1]"

text \<open>\<^verbatim>\<open>sum(xs)\<close> adds from the left, starting at zero.\<close>

definition sum_py :: "real list \<Rightarrow> real" where
  "sum_py xs = foldl (+) 0 xs"

text \<open>\<^verbatim>\<open>x / y\<close> raises on a zero divisor.\<close>

definition truediv :: "real \<Rightarrow> real \<Rightarrow> error + real" where
  "truediv x y = (if y = 0 then Inl ZeroDivisionError else Inr (x / y))"

text \<open>Rounding to the nearest integer, a tie going to the even one.\<close>

definition round_half_even :: "real \<Rightarrow> int" where
  "round_half_even x =
     (let f = \<lfloor>x\<rfloor>; d = x - of_int f
      in if d < 1 / 2 then f else if 1 / 2 < d then f + 1 else if even f then f else f + 1)"

text \<open>
  The binary exponent of a nonzero number in double precision (for a subnormal number the
  least exponent), and the double nearest to a number, a tie going to the even
  significand: the number is rounded to a multiple of \<open>2\<close> to the power of its exponent
  minus 52. The range of the exponent is not bounded above here; \<open>to_float\<close> checks it.
\<close>

definition float_exp :: "real \<Rightarrow> int" where
  "float_exp x = max (- 1022) \<lfloor>log 2 \<bar>x\<bar>\<rfloor>"

definition round_float :: "real \<Rightarrow> real" where
  "round_float x =
     (if x = 0 then 0
      else (let u = 2 powi (float_exp x - 52) in of_int (round_half_even (x / u)) * u))"

text \<open>
  The float for an exact value computed from integers, as \<^verbatim>\<open>int / int\<close> and
  \<^verbatim>\<open>float(int)\<close> produce it: the nearest double, or \<open>OverflowError\<close> when that is beyond
  the largest double.
\<close>

definition to_float :: "real \<Rightarrow> error + real" where
  "to_float x = (let r = round_float x in if 2 ^ 1024 \<le> \<bar>r\<bar> then Inl OverflowError else Inr r)"

section \<open>Indicator engine\<close>

text \<open>
  The list comprehension of line 120,
  \<^verbatim>\<open>[data[j]['close'] for j in range(i - window + 1, i + 1)]\<close>, over a list of indices.
\<close>

fun window_closes :: "real candle list \<Rightarrow> int list \<Rightarrow> error + real list" where
  "window_closes data [] = Inr []"
| "window_closes data (j # js) =
     (case getitem data j of
        Inl e \<Rightarrow> Inl e
      | Inr c \<Rightarrow>
         (case window_closes data js of
            Inl e \<Rightarrow> Inl e
          | Inr cs \<Rightarrow> Inr (close c # cs)))"

text \<open>
  The loop of \<^verbatim>\<open>compute_sma\<close> (lines 114-122) over the remaining indices, with the list
  \<^verbatim>\<open>sma_values\<close> built so far.
\<close>

fun sma_loop :: "real candle list \<Rightarrow> int \<Rightarrow> int list \<Rightarrow> real list \<Rightarrow> error + real list" where
  "sma_loop data window [] sma_values = Inr sma_values"
| "sma_loop data window (i # is) sma_values =
     (if i < window - 1 then
        (case getitem data i of
           Inl e \<Rightarrow> Inl e
         | Inr c \<Rightarrow> sma_loop data window is (sma_values @ [close c]))
      else
        (case window_closes data (range_py (i - window + 1) (i + 1)) of
           Inl e \<Rightarrow> Inl e
         | Inr cs \<Rightarrow>
            (case truediv (sum_py cs) (of_int window) of
               Inl e \<Rightarrow> Inl e
             | Inr sma \<Rightarrow> sma_loop data window is (sma_values @ [sma]))))"

definition compute_sma :: "real candle list \<Rightarrow> int \<Rightarrow> error + real list" where
  "compute_sma data window = sma_loop data window (range_py 0 (int (length data))) []"

definition compute_pct_change :: "real candle list \<Rightarrow> error + real" where
  "compute_pct_change data =
     (if length data < 2 then Inr 0
      else
        (case getitem data 0 of
           Inl e \<Rightarrow> Inl e
         | Inr f \<Rightarrow>
            (case getitem data (- 1) of
               Inl e \<Rightarrow> Inl e
             | Inr l \<Rightarrow>
                (let first_close = close f; last_close = close l
                 in if first_close = 0 then Inr 0
                    else
                      (case truediv (last_close - first_close) first_close of
                         Inl e \<Rightarrow> Inl e
                       | Inr q \<Rightarrow> Inr (q * 100))))))"

text \<open>A candle with the given close price; the other fields are zero.\<close>

definition cl :: "real \<Rightarrow> real candle" where
  "cl c = \<lparr>timestamp = 0, open_price = 0, high = 0, low = 0, close = c, volume = 0\<rparr>"

section \<open>Symbol resolver\<close>

text \<open>
  \<^verbatim>\<open>str.lower()\<close> and \<^verbatim>\<open>str.upper()\<close> on the ASCII letters; every other character is left
  as it is (Python also maps letters beyond ASCII, which are not covered here).
\<close>

definition lower_char :: "char \<Rightarrow> char" where
  "lower_char c =
     (let n = (of_char c :: nat) in if 65 \<le> n \<and> n \<le> 90 then char_of (n + 32) else c)"

definition upper_char :: "char \<Rightarrow> char" where
  "upper_char c =
     (let n = (of_char c :: nat) in if 97 \<le> n \<and> n \<le> 122 then char_of (n - 32) else c)"

definition lower :: "string \<Rightarrow> string" where
  "lower s = map lower_char s"

definition upper :: "string \<Rightarrow> string" where
  "upper s = map upper_char s"

text \<open>\<^verbatim>\<open>s.endswith(suf)\<close>.\<close>

definition endswith :: "string \<Rightarrow> string \<Rightarrow> bool" where
  "endswith s suf = (length suf \<le> length s \<and> drop (length s - length suf) s = suf)"

text \<open>The dictionary of lines 30-39.\<close>

definition symbol_map :: "string \<rightharpoonup> string" where
  "symbol_map = map_of
     [(''bitcoin'', ''BTCUSDT''),
      (''ethereum'', ''ETHUSDT''),
      (''cardano'', ''ADAUSDT''),
      (''solana'', ''SOLUSDT''),
      (''dogecoin'', ''DOGEUSDT''),
      (''litecoin'', ''LTCUSDT''),
      (''chainlink'', ''LINKUSDT''),
      (''polkadot'', ''DOTUSDT'')]"

text \<open>\<^verbatim>\<open>d[k]\<close> on a dictionary raises \<open>KeyError\<close> on a missing key.\<close>

definition lookup :: "('k \<rightharpoonup> 'v) \<Rightarrow> 'k \<Rightarrow> error + 'v" where
  "lookup d k = (case d k of None \<Rightarrow> Inl KeyError | Some v \<Rightarrow> Inr v)"

text \<open>
  Lines 42-46 of \<^verbatim>\<open>fetch_ohlcv\<close>: the trading pair sent to the provider. The first line is
  \<^verbatim>\<open>symbol_map.get(symbol.lower(), symbol.upper())\<close>.
\<close>

definition resolve :: "string \<Rightarrow> error + string" where
  "resolve symbol =
     (let trading_pair =
            (case symbol_map (lower symbol) of Some p \<Rightarrow> p | None \<Rightarrow> upper symbol)
      in if \<not> endswith trading_pair ''USDT'' \<and> symbol_map (lower symbol) \<noteq> None
         then lookup symbol_map (lower symbol)
         else if \<not> endswith trading_pair ''USDT'' then Inr (trading_pair @ ''USDT'')
         else Inr trading_pair)"

section \<open>Market data fetcher\<close>

text \<open>
  A value decoded from JSON by \<^verbatim>\<open>response.json()\<close>. The body of the klines endpoint is
  an array; its elements are arbitrary JSON values.
\<close>

datatype jval =
    JInt int
  | JFloat real
  | JStr string
  | JBool bool
  | JNull
  | JArr "jval list"
  | JObj "(string \<times> jval) list"

text \<open>
  What \<^verbatim>\<open>requests.get\<close>, \<^verbatim>\<open>raise_for_status\<close> and \<^verbatim>\<open>response.json\<close> give for a request: a
  transport or status failure, a body that is not JSON (each with the text of the
  exception), or the decoded array.
\<close>

datatype response = RequestException string | JSONDecodeError string | Body "jval list"

text \<open>Sequencing of fallible steps: the first error ends the computation.\<close>

definition bind_e :: "error + 'a \<Rightarrow> ('a \<Rightarrow> error + 'b) \<Rightarrow> error + 'b" where
  "bind_e m f = (case m of Inl e \<Rightarrow> Inl e | Inr x \<Rightarrow> f x)"

text \<open>
  \<^verbatim>\<open>kline[i]\<close> on a decoded value: a list or a string is indexed by position, a
  dictionary with string keys has no integer key, anything else is not subscriptable.
\<close>

definition subscript :: "jval \<Rightarrow> int \<Rightarrow> error + jval" where
  "subscript v i =
     (case v of
        JArr xs \<Rightarrow> getitem xs i
      | JStr s \<Rightarrow> bind_e (getitem s i) (\<lambda>c. Inr (JStr [c]))
      | JObj kvs \<Rightarrow> Inl KeyError
      | _ \<Rightarrow> Inl TypeError)"

text \<open>
  \<^verbatim>\<open>v / 1000\<close>: defined on numbers (a boolean counts as 0 or 1). The division of an
  integer by an integer gives the double nearest to the exact quotient and raises when
  that is out of range; a float divided by 1000 is rounded in the same way and stays in
  range.
\<close>

definition div_1000 :: "jval \<Rightarrow> error + real" where
  "div_1000 v =
     (case v of
        JInt n \<Rightarrow> to_float (of_int n / 1000)
      | JFloat x \<Rightarrow> Inr (round_float (x / 1000))
      | JBool b \<Rightarrow> to_float ((if b then 1 else 0) / 1000)
      | _ \<Rightarrow> Inl TypeError)"

text \<open>\<^verbatim>\<open>int(x)\<close> of a float drops the fractional part, towards zero.\<close>

definition int_py :: "real \<Rightarrow> int" where
  "int_py x = (if 0 \<le> x then \<lfloor>x\<rfloor> else \<lceil>x\<rceil>)"

text \<open>
  \<^verbatim>\<open>float(v)\<close>: a number is converted, a string is parsed, anything else is a type error.
  The parser of decimal strings is the parameter \<open>pf\<close>, from a string to the finite
  value it denotes; \<open>None\<close> is a string that \<^verbatim>\<open>float\<close> rejects. A string that denotes
  an infinity or a NaN has no value of this type: the fetch stage is modelled for finite
  prices only, and the statements about it say so.
\<close>

definition float_py :: "(string \<Rightarrow> real option) \<Rightarrow> jval \<Rightarrow> error + real" where
  "float_py pf v =
     (case v of
        JInt n \<Rightarrow> to_float (of_int n)
      | JFloat x \<Rightarrow> Inr x
      | JBool b \<Rightarrow> Inr (if b then 1 else 0)
      | JStr s \<Rightarrow> (case pf s of None \<Rightarrow> Inl ValueError | Some x \<Rightarrow> Inr x)
      | _ \<Rightarrow> Inl TypeError)"

text \<open>The dictionary of lines 88-95, its values evaluated in the order written.\<close>

definition convert_kline ::
  "(string \<Rightarrow> real option) \<Rightarrow> jval \<Rightarrow> error + real candle" where
  "convert_kline pf kline =
     bind_e (subscript kline 0) (\<lambda>v0. bind_e (div_1000 v0) (\<lambda>q.
     bind_e (subscript kline 1) (\<lambda>v1. bind_e (float_py pf v1) (\<lambda>op.
     bind_e (subscript kline 2) (\<lambda>v2. bind_e (float_py pf v2) (\<lambda>hi.
     bind_e (subscript kline 3) (\<lambda>v3. bind_e (float_py pf v3) (\<lambda>lo.
     bind_e (subscript kline 4) (\<lambda>v4. bind_e (float_py pf v4) (\<lambda>clo.
     bind_e (subscript kline 5) (\<lambda>v5. bind_e (float_py pf v5) (\<lambda>vol.
       Inr \<lparr>timestamp = int_py q, open_price = op, high = hi, low = lo,
            close = clo, volume = vol\<rparr>))))))))))))"

text \<open>The loop of lines 86-95 with the list \<^verbatim>\<open>ohlcv_data\<close> built so far.\<close>

fun convert_loop ::
  "(string \<Rightarrow> real option) \<Rightarrow> jval list \<Rightarrow> real candle list \<Rightarrow>
   error + real candle list" where
  "convert_loop pf [] ohlcv_data = Inr ohlcv_data"
| "convert_loop pf (kline # rest) ohlcv_data =
     bind_e (convert_kline pf kline) (\<lambda>c. convert_loop pf rest (ohlcv_data @ [c]))"

text \<open>\<^verbatim>\<open>str(n)\<close> of an integer, in decimal.\<close>

definition digit_char :: "nat \<Rightarrow> char" where
  "digit_char d = ''0123456789'' ! d"

fun str_nat :: "nat \<Rightarrow> string" where
  "str_nat n = (if n < 10 then [digit_char n] else str_nat (n div 10) @ [digit_char (n mod 10)])"

declare str_nat.simps [simp del]

definition str_int :: "int \<Rightarrow> string" where
  "str_int i = (if i < 0 then ''-'' @ str_nat (nat (- i)) else str_nat (nat i))"

text \<open>
  \<^verbatim>\<open>fetch_ohlcv\<close>. The network is the parameter \<open>http\<close>, from the trading pair requested to
  the response. The result is the list of lines printed and either the error that ended
  the function or the candles. \<^verbatim>\<open>sys.exit(1)\<close> inside the \<^verbatim>\<open>try\<close> is not caught by the two
  handlers, which catch other exception classes.
\<close>

definition fetch_ohlcv ::
  "(string \<Rightarrow> real option) \<Rightarrow> (string \<Rightarrow> response) \<Rightarrow> string \<Rightarrow>
   string list \<times> (error + real candle list)" where
  "fetch_ohlcv pf http symbol =
     (case resolve symbol of
        Inl e \<Rightarrow> ([], Inl e)
      | Inr trading_pair \<Rightarrow>
         (let out1 = [''Fetching data for '' @ trading_pair @ ''...''] in
          case http trading_pair of
            RequestException e \<Rightarrow>
              (out1 @ [''Error fetching data: '' @ e,
                       ''Note: Make sure the symbol '' @ [CHR 0x27] @ trading_pair @ [CHR 0x27]
                         @ '' exists on Binance''],
               Inl (SystemExit 1))
          | JSONDecodeError e \<Rightarrow>
              (out1 @ [''Error parsing JSON response: '' @ e], Inl (SystemExit 1))
          | Body data \<Rightarrow>
              if data = [] then
                (out1 @ [''Error: No data found for '' @ trading_pair], Inl (SystemExit 1))
              else
                (let out2 = out1 @
                       (if length data < 60 then
                          [''Warning: Only '' @ str_nat (length data)
                             @ '' minutes of data available (expected 60)'']
                        else [])
                 in if length data < 60 \<and> length data < 10 then
                      (out2 @ [''Error: Insufficient data for analysis (need at least 10 minutes)''],
                       Inl (SystemExit 1))
                    else
                      (case convert_loop pf data [] of
                         Inl e \<Rightarrow> (out2, Inl e)
                       | Inr ohlcv_data \<Rightarrow>
                          (out2 @ [''Successfully fetched '' @ str_nat (length ohlcv_data)
                                     @ '' minutes of OHLCV data''],
                           Inr ohlcv_data)))))"

text \<open>
  The positional record the provider sends for one candle: the open time in milliseconds,
  five decimal strings, and whatever follows them.
\<close>

definition raw_kline :: "int \<Rightarrow> string list \<Rightarrow> jval list \<Rightarrow> jval" where
  "raw_kline ms prices trailing = JArr (JInt ms # map JStr prices @ trailing)"

section \<open>Tabular writer\<close>

text \<open>
  The format \<^verbatim>\<open>.2f\<close>. A finite number gives the sign, the integer part in decimal, a
  point and two digits, after rounding the exact value to hundredths, ties to even.
  Negative zero keeps its sign; an infinity and a NaN are written by name.
\<close>

definition fixed_2f :: "real \<Rightarrow> string" where
  "fixed_2f x =
     (let n = nat (round_half_even (\<bar>x\<bar> * 100))
      in (if x < 0 then ''-'' else []) @ str_nat (n div 100) @ ''.''
           @ [digit_char (n mod 100 div 10), digit_char (n mod 10)])"

definition format_2f :: "pyfloat \<Rightarrow> string" where
  "format_2f v =
     (case v of
        Finite x \<Rightarrow> fixed_2f x
      | NegZero \<Rightarrow> ''-0.00''
      | PosInf \<Rightarrow> ''inf''
      | NegInf \<Rightarrow> ''-inf''
      | NaN \<Rightarrow> ''nan'')"

definition fieldnames :: "string list" where
  "fieldnames =
     [''timestamp'', ''open'', ''high'', ''low'', ''close'', ''volume'', ''sma_10'', ''pct_change'']"

text \<open>
  The \<^verbatim>\<open>csv\<close> writer in its default dialect: a field is quoted only when it holds the
  delimiter, the quote character or a line break; fields are joined by commas and the row
  ends with carriage return and line feed.
\<close>

definition needs_quote :: "string \<Rightarrow> bool" where
  "needs_quote f = list_ex (\<lambda>c. c = CHR '','' \<or> c = CHR 0x22 \<or> c = CHR 0x0D \<or> c = CHR 0x0A) f"

definition csv_field :: "string \<Rightarrow> string" where
  "csv_field f =
     (if needs_quote f
      then [CHR 0x22] @ concat (map (\<lambda>c. if c = CHR 0x22 then [c, c] else [c]) f) @ [CHR 0x22]
      else f)"

fun join :: "string \<Rightarrow> string list \<Rightarrow> string" where
  "join sep [] = []"
| "join sep [f] = f"
| "join sep (f # g # fs) = f @ sep @ join sep (g # fs)"

definition crlf :: string where
  "crlf = [CHR 0x0D, CHR 0x0A]"

definition csv_row :: "string list \<Rightarrow> string" where
  "csv_row fs = join '','' (map csv_field fs) @ crlf"

text \<open>The dictionary of lines 168-177 for row \<open>i\<close>, as the list of its values in column order.\<close>

definition output_row ::
  "pyfloat list \<Rightarrow> pyfloat \<Rightarrow> nat \<Rightarrow> pyfloat candle \<Rightarrow> error + string list" where
  "output_row sma_list pct i row =
     bind_e (if i < length sma_list
             then bind_e (getitem sma_list (int i)) (\<lambda>v. Inr (format_2f v))
             else Inr [])
       (\<lambda>sma. Inr [str_int (timestamp row), format_2f (open_price row), format_2f (high row),
                   format_2f (low row), format_2f (close row), format_2f (volume row),
                   sma, format_2f pct])"

text \<open>The loop of lines 167-178 over \<^verbatim>\<open>enumerate(data)\<close>, with the text written so far.\<close>

fun write_rows ::
  "pyfloat list \<Rightarrow> pyfloat \<Rightarrow> (nat \<times> pyfloat candle) list \<Rightarrow> string \<Rightarrow> error + string" where
  "write_rows sma_list pct [] written = Inr written"
| "write_rows sma_list pct ((i, row) # rest) written =
     bind_e (output_row sma_list pct i row)
       (\<lambda>fs. write_rows sma_list pct rest (written @ csv_row fs))"

text \<open>
  \<^verbatim>\<open>write_csv\<close>. The parameter \<open>io_error\<close> is the \<^verbatim>\<open>IOError\<close> that opening the destination
  raises, if any. The result is the lines printed and either the error or the text of
  the file.
\<close>

definition write_csv ::
  "string option \<Rightarrow> pyfloat candle list \<Rightarrow> pyfloat list \<Rightarrow> pyfloat \<Rightarrow> string \<Rightarrow>
   string list \<times> (error + string)" where
  "write_csv io_error data sma_list pct out_path =
     (case io_error of
        Some e \<Rightarrow> ([''Error writing CSV file: '' @ e], Inl (SystemExit 1))
      | None \<Rightarrow>
         (case write_rows sma_list pct (enumerate 0 data) (csv_row fieldnames) of
            Inl e \<Rightarrow> ([], Inl e)
          | Inr written \<Rightarrow> ([''Data successfully written to '' @ out_path], Inr written)))"

section \<open>The pipeline\<close>

text \<open>
  The candles of the fetch stage and the indicators computed from them are finite
  values; this is how they reach the writer.
\<close>

definition as_floats :: "real candle \<Rightarrow> pyfloat candle" where
  "as_floats c =
     \<lparr>timestamp = timestamp c, open_price = Finite (open_price c), high = Finite (high c),
      low = Finite (low c), close = Finite (close c), volume = Finite (volume c)\<rparr>"

text \<open>\<^verbatim>\<open>main\<close>, after the command line has been parsed into \<open>symbol\<close> and \<open>output\<close>.\<close>

definition main ::
  "(string \<Rightarrow> real option) \<Rightarrow> (string \<Rightarrow> response) \<Rightarrow> string option \<Rightarrow> string \<Rightarrow> string \<Rightarrow>
   string list \<times> (error + string)" where
  "main pf http io_error symbol output =
     (case fetch_ohlcv pf http symbol of
        (out1, Inl e) \<Rightarrow> (out1, Inl e)
      | (out1, Inr ohlcv_data) \<Rightarrow>
         (let out2 = out1 @ [''Computing indicators...''] in
          case compute_sma ohlcv_data 10 of
            Inl e \<Rightarrow> (out2, Inl e)
          | Inr sma_values \<Rightarrow>
             (case compute_pct_change ohlcv_data of
                Inl e \<Rightarrow> (out2, Inl e)
              | Inr pct_change \<Rightarrow>
                 (let out3 = out2 @
                        [''10-minute SMA computed for '' @ str_nat (length sma_values)
                           @ '' data points'',
                         ''Overall percentage change: '' @ format_2f (Finite pct_change) @ ''%'']
                  in case write_csv io_error (map as_floats ohlcv_data)
                            (map Finite sma_values) (Finite pct_change) output of
                       (out4, Inl e) \<Rightarrow> (out3 @ out4, Inl e)
                     | (out4, Inr written) \<Rightarrow>
                        (out3 @ out4 @ [''Analysis complete! Results saved to '' @ output],
                         Inr written)))))"

text \<open>
  The exit status of the process: \<^verbatim>\<open>sys.exit(n)\<close> gives \<open>n\<close>, any other uncaught exception
  gives 1, a normal return gives 0.
\<close>

definition exit_status :: "error + 'a \<Rightarrow> int" where
  "exit_status r = (case r of Inr _ \<Rightarrow> 0 | Inl (SystemExit n) \<Rightarrow> n | Inl _ \<Rightarrow> 1)"

section \<open>Notions used in the statements\<close>

text \<open>The value \<^verbatim>\<open>compute_sma\<close> stores at index \<open>i\<close>, as lines 115-122 compute it.\<close>

definition sma_at :: "real candle list \<Rightarrow> int \<Rightarrow> int \<Rightarrow> real" where
  "sma_at data window i =
     (if i < window - 1 then close (data ! nat i)
      else sum_list (map (\<lambda>j. close (data ! nat j)) [i - window + 1..i]) / of_int window)"

text \<open>A decimal digit; an optional minus sign in front of a text.\<close>

definition is_digit :: "char \<Rightarrow> bool" where
  "is_digit c = (c \<in> set ''0123456789'')"

definition strip_sign :: "string \<Rightarrow> string" where
  "strip_sign s = (case s of [] \<Rightarrow> [] | c # t \<Rightarrow> if c = CHR ''-'' then t else s)"

text \<open>A plain integer: an optional sign and one or more digits.\<close>

definition is_int_str :: "string \<Rightarrow> bool" where
  "is_int_str s = (strip_sign s \<noteq> [] \<and> list_all is_digit (strip_sign s))"

text \<open>
  Fixed-point notation with two decimals: an optional sign, one or more digits, a point
  and exactly two digits. The text is read from its end.
\<close>

fun fixed2_rev :: "string \<Rightarrow> bool" where
  "fixed2_rev (d2 # d1 # p # ds) =
     (is_digit d2 \<and> is_digit d1 \<and> p = CHR ''.'' \<and> ds \<noteq> [] \<and> list_all is_digit ds)"
| "fixed2_rev _ = False"

definition is_fixed2 :: "string \<Rightarrow> bool" where
  "is_fixed2 s = fixed2_rev (rev (strip_sign s))"

text \<open>
  The candle that a positional record stands for: the open time in whole seconds, the
  sub-second remainder dropped (for an open time before the epoch the quotient is rounded
  towards zero, as \<^verbatim>\<open>int\<close> does), and the five parsed prices in order.
\<close>

definition decoded ::
  "(string \<Rightarrow> real option) \<Rightarrow> int \<times> string list \<times> jval list \<Rightarrow> real candle" where
  "decoded pf r =
     (case r of (ms, prices, trailing) \<Rightarrow>
        \<lparr>timestamp = (if 0 \<le> ms then ms div 1000 else - (- ms div 1000)),
         open_price = the (pf (prices ! 0)), high = the (pf (prices ! 1)),
         low = the (pf (prices ! 2)), close = the (pf (prices ! 3)),
         volume = the (pf (prices ! 4))\<rparr>)"

text \<open>
  The eight values of the dictionary of lines 168-177 for row \<open>i\<close>, in column order; the
  characters that the two formats produce.
\<close>

definition row_fields :: "pyfloat list \<Rightarrow> pyfloat \<Rightarrow> nat \<Rightarrow> pyfloat candle \<Rightarrow> string list" where
  "row_fields sma_list pct i row =
     [str_int (timestamp row), format_2f (open_price row), format_2f (high row),
      format_2f (low row), format_2f (close row), format_2f (volume row),
      (if i < length sma_list then format_2f (sma_list ! i) else []), format_2f pct]"

definition plain :: "char \<Rightarrow> bool" where
  "plain c = (is_digit c \<or> c \<in> set ''-.afin'')"

text \<open>A float that is not an infinity or a NaN; a candle all of whose prices are such.\<close>

definition is_finite :: "pyfloat \<Rightarrow> bool" where
  "is_finite v = (case v of Finite x \<Rightarrow> True | NegZero \<Rightarrow> True | _ \<Rightarrow> False)"

definition finite_candle :: "pyfloat candle \<Rightarrow> bool" where
  "finite_candle c =
     (is_finite (open_price c) \<and> is_finite (high c) \<and> is_finite (low c) \<and>
      is_finite (close c) \<and> is_finite (volume c))"

text \<open>The text of a file that consists of the given lines, each ended by a line break.\<close>

definition file_of_lines :: "string list \<Rightarrow> string" where
  "file_of_lines ls = concat (map (\<lambda>l. l @ crlf) ls)"

section \<open>Facts about the built-in operations\<close>

lemma getitem_in_range:
  "0 \<le> i \<Longrightarrow> i < int (length xs) \<Longrightarrow> getitem xs i = Inr (xs ! nat i)"
  by (simp add: getitem_def)

lemma getitem_last:
  "xs \<noteq> [] \<Longrightarrow> getitem xs (- 1) = Inr (last xs)"
  by (cases xs rule: rev_cases) (simp_all add: getitem_def nat_add_distrib)

lemma sum_py_sum_list_aux: "foldl (+) a xs = a + sum_list (xs :: real list)"
  by (induction xs arbitrary: a) simp_all

lemma sum_py_sum_list: "sum_py xs = sum_list xs"
  by (simp add: sum_py_def sum_py_sum_list_aux)

section \<open>The moving average\<close>

lemma window_closes_in_range:
  "\<forall>j \<in> set js. 0 \<le> j \<and> j < int (length data) \<Longrightarrow>
   window_closes data js = Inr (map (\<lambda>j. close (data ! nat j)) js)"
  by (induction js) (simp_all add: getitem_in_range)

lemma sma_loop_in_range:
  "1 \<le> window \<Longrightarrow> \<forall>i \<in> set is. 0 \<le> i \<and> i < int (length data) \<Longrightarrow>
   sma_loop data window is acc = Inr (acc @ map (sma_at data window) is)"
proof (induction "is" arbitrary: acc)
  case Nil
  then show ?case by simp
next
  case (Cons i "is")
  have i: "0 \<le> i" "i < int (length data)" using Cons.prems(2) by simp_all
  have rest: "\<forall>i \<in> set is. 0 \<le> i \<and> i < int (length data)" using Cons.prems(2) by simp
  show ?case
  proof (cases "i < window - 1")
    case True
    then show ?thesis
      using Cons.IH [OF Cons.prems(1) rest] i by (simp add: getitem_in_range sma_at_def)
  next
    case False
    have w: "\<forall>j \<in> set (range_py (i - window + 1) (i + 1)). 0 \<le> j \<and> j < int (length data)"
      using False i Cons.prems(1) by (auto simp: range_py_def)
    have wc: "window_closes data (range_py (i - window + 1) (i + 1)) =
        Inr (map (\<lambda>j. close (data ! nat j)) [i - window + 1..i])"
      using window_closes_in_range [OF w] by (simp add: range_py_def)
    have dv: "truediv x (of_int window) = Inr (x / of_int window)" for x
      using Cons.prems(1) by (simp add: truediv_def)
    show ?thesis
      using False Cons.IH [OF Cons.prems(1) rest]
      by (simp add: wc dv sum_py_sum_list sma_at_def)
  qed
qed

lemma compute_sma_map:
  assumes "1 \<le> window"
  shows "compute_sma data window = Inr (map (sma_at data window) [0..int (length data) - 1])"
  unfolding compute_sma_def range_py_def
  using sma_loop_in_range [OF assms, of "[0..int (length data) - 1]" data "[]"] by simp

lemma sum_list_upto_nat:
  assumes "0 \<le> a" "0 \<le> b"
  shows "sum_list (map (\<lambda>j. f (nat j)) [a..b]) = (\<Sum>j = nat a..nat b. f j)" 
proof -
  have "sum_list (map (\<lambda>j. f (nat j)) [a..b]) = (\<Sum>j \<in> {a..b}. f (nat j))"
    by (simp add: sum_list_distinct_conv_sum_set)
  also have "\<dots> = (\<Sum>j = nat a..nat b. f j)"
    using assms by (intro sum.reindex_bij_witness [where i = int and j = nat]) auto
  finally show ?thesis .
qed

lemma compute_sma_spec:
  assumes "1 \<le> window"
  shows "\<exists>r. compute_sma data window = Inr r \<and> length r = length data \<and>
    (\<forall>i < length data. r ! i =
       (if int i < window - 1 then close (data ! i)
        else (\<Sum>j = i + 1 - nat window..i. close (data ! j)) / of_int window))"
proof -
  let ?r = "map (sma_at data window) [0..int (length data) - 1]"
  have len: "length ?r = length data" by simp
  have "?r ! i = (if int i < window - 1 then close (data ! i)
        else (\<Sum>j = i + 1 - nat window..i. close (data ! j)) / of_int window)"
    if "i < length data" for i
  proof -
    have nth: "?r ! i = sma_at data window (int i)"
      using that by simp
    show ?thesis
    proof (cases "int i < window - 1")
      case True
      then show ?thesis by (simp add: nth sma_at_def)
    next
      case False
      then have lo: "0 \<le> int i - window + 1" by simp
      have n: "nat (int i - window + 1) = i + 1 - nat window"
        using False assms by linarith
      show ?thesis
        using False sum_list_upto_nat [OF lo, of "int i" "\<lambda>j. close (data ! j)"]
        by (simp add: nth sma_at_def n)
    qed
  qed
  then show ?thesis using compute_sma_map [OF assms, of data] len by blast
qed


section \<open>The percentage change\<close>

lemma hd_last_nth:
  "2 \<le> length xs \<Longrightarrow> hd xs = xs ! 0 \<and> last xs = xs ! (length xs - 1)"
  by (cases xs) (auto simp: last_conv_nth)

lemma compute_pct_change_eq:
  "compute_pct_change data =
     (if length data < 2 \<or> close (hd data) = 0 then Inr 0
      else Inr ((close (last data) - close (hd data)) / close (hd data) * 100))"
proof (cases "length data < 2")
  case True
  then show ?thesis by (simp add: compute_pct_change_def)
next
  case False
  then have ne: "data \<noteq> []" by auto
  have first: "getitem data 0 = Inr (hd data)"
    using ne by (simp add: getitem_def hd_conv_nth)
  show ?thesis
    using False by (simp add: compute_pct_change_def first getitem_last [OF ne] truediv_def Let_def)
qed

section \<open>Claims about the indicator engine\<close>

text \<open>
  Claim C1. For every series and every window \<open>w \<ge> 1\<close>, \<^verbatim>\<open>compute_sma\<close> returns a list as
  long as the series; at a position \<open>i < w - 1\<close> it holds the close price at \<open>i\<close>, and at a
  position \<open>i \<ge> w - 1\<close> it holds the arithmetic mean of the close prices at the positions
  \<open>i - w + 1\<close> to \<open>i\<close>.
\<close>

theorem compute_sma_window_mean:
  assumes "1 \<le> window"
  shows "\<exists>r. compute_sma data window = Inr r \<and> length r = length data \<and>
    (\<forall>i < length data. r ! i =
       (if int i < window - 1 then close (data ! i)
        else (\<Sum>j = i + 1 - nat window..i. close (data ! j)) / of_int window))"
  using assms by (rule compute_sma_spec)

theorem compute_sma_window_mean_witness:
  "(1::int) \<le> 2 \<and> compute_sma [cl 1, cl 2, cl 6] 2 = Inr [1, 3 / 2, 4]"
proof -
  obtain r where r: "compute_sma [cl 1, cl 2, cl 6] 2 = Inr r" "length r = 3"
    and v: "\<forall>i < 3. r ! i =
       (if int i < 2 - 1 then close ([cl 1, cl 2, cl 6] ! i)
        else (\<Sum>j = i + 1 - nat 2..i. close ([cl 1, cl 2, cl 6] ! j)) / of_int 2)"
    using compute_sma_window_mean [of 2 "[cl 1, cl 2, cl 6]"] by auto
  have "r ! 0 = 1" using v by (simp add: cl_def)
  moreover have "r ! Suc 0 = 3 / 2"
  proof -
    have "{Suc 0 + 1 - nat 2..Suc 0} = {0, Suc 0}" by auto
    then show ?thesis using v by (simp add: cl_def)
  qed
  moreover have "r ! Suc (Suc 0) = 4"
  proof -
    have "{2 + 1 - nat 2..2::nat} = {Suc 0, 2}" by auto
    then have "r ! 2 = 4" using v by (simp add: cl_def)
    then show ?thesis by (simp add: numeral_2_eq_2)
  qed
  ultimately have "r = [1, 3 / 2, 4]"
    using r(2) by (auto simp: list_eq_iff_nth_eq less_Suc_eq numeral_3_eq_3)
  then show ?thesis using r(1) by simp
qed

text \<open>
  Claim C2. \<^verbatim>\<open>compute_pct_change\<close> returns 0 for a series of length 0 or 1 and for a series
  whose first close price is zero; for any other series it returns
  \<open>(last - first) / first * 100\<close> of the close prices. Closes 100 then 150 give 50, closes
  200 then 100 give -50.
\<close>

theorem compute_pct_change_cases:
  "(length data < 2 \<longrightarrow> compute_pct_change data = Inr 0) \<and>
   (2 \<le> length data \<and> close (data ! 0) = 0 \<longrightarrow> compute_pct_change data = Inr 0) \<and>
   (2 \<le> length data \<and> close (data ! 0) \<noteq> 0 \<longrightarrow>
      compute_pct_change data =
        Inr ((close (data ! (length data - 1)) - close (data ! 0)) / close (data ! 0) * 100)) \<and>
   (close a = 100 \<and> close b = 150 \<longrightarrow> compute_pct_change [a, b] = Inr 50) \<and>
   (close a = 200 \<and> close b = 100 \<longrightarrow> compute_pct_change [a, b] = Inr (- 50))"
proof -
  have "hd data = data ! 0 \<and> last data = data ! (length data - 1)" if "2 \<le> length data"
    using that by (rule hd_last_nth)
  then show ?thesis
    by (simp add: compute_pct_change_eq)
qed

theorem compute_pct_change_cases_witness:
  "compute_pct_change [] = Inr 0 \<and> compute_pct_change [cl 7] = Inr 0 \<and>
   compute_pct_change [cl 0, cl 5] = Inr 0 \<and>
   compute_pct_change [cl 4, cl 9, cl 5] = Inr 25 \<and>
   compute_pct_change [cl 100, cl 150] = Inr 50 \<and>
   compute_pct_change [cl 200, cl 100] = Inr (- 50)"
  using compute_pct_change_cases [of "[]"] compute_pct_change_cases [of "[cl 7]"]
    compute_pct_change_cases [of "[cl 0, cl 5]"]
    compute_pct_change_cases [of "[cl 4, cl 9, cl 5]"]
    compute_pct_change_cases [of _ "cl 100" "cl 150"]
    compute_pct_change_cases [of _ "cl 200" "cl 100"]
  by (simp add: cl_def)

text \<open>
  Claim C9. \<^verbatim>\<open>compute_sma\<close> with a window \<open>w \<ge> 1\<close> and \<^verbatim>\<open>compute_pct_change\<close> return a value
  for every series, the empty one included: no index is out of range and no divisor is
  zero. In the model every such failure is an \<open>Inl\<close> result, so returning \<open>Inr\<close> says that
  none occurred.
\<close>

theorem indicators_total:
  "(1 \<le> window \<longrightarrow> (\<exists>r. compute_sma data window = Inr r)) \<and>
   (\<exists>p. compute_pct_change data = Inr p)"
proof -
  have "\<exists>r. compute_sma data window = Inr r" if "1 \<le> window"
    using compute_sma_spec [OF that, of data] by blast
  moreover have "\<exists>p. compute_pct_change data = Inr p"
    by (simp add: compute_pct_change_eq)
  ultimately show ?thesis by blast
qed

theorem indicators_total_witness:
  "(1::int) \<le> 10 \<and> (\<exists>r. compute_sma [] 10 = Inr r) \<and> (\<exists>r. compute_sma [cl 3, cl 4] 1 = Inr r) \<and>
   (\<exists>p. compute_pct_change [] = Inr p)"
  using indicators_total [of 10 "[]"] indicators_total [of 1 "[cl 3, cl 4]"] by simp

text \<open>The bound on the window is needed: a window of zero divides by zero.\<close>

lemma compute_sma_window_zero: "compute_sma [cl 1] 0 = Inl ZeroDivisionError"
  by (simp add: compute_sma_def range_py_def getitem_def truediv_def sum_py_def)

text \<open>
  Claim C10. Two series of at least two candles with the same first close price and the
  same last close price have the same percentage change, whatever their lengths, their
  inner candles and their other fields.
\<close>

theorem compute_pct_change_first_last:
  assumes "2 \<le> length a" "2 \<le> length b"
    and "close (a ! 0) = close (b ! 0)"
    and "close (a ! (length a - 1)) = close (b ! (length b - 1))"
  shows "compute_pct_change a = compute_pct_change b"
proof -
  show ?thesis
    using assms hd_last_nth [OF assms(1)] hd_last_nth [OF assms(2)]
    by (simp add: compute_pct_change_eq)
qed

theorem compute_pct_change_first_last_witness:
  "compute_pct_change [cl 4, cl 9, cl 0, cl 5] =
   compute_pct_change
     [\<lparr>timestamp = 60, open_price = 1, high = 8, low = 1, close = 4, volume = 3\<rparr>, cl 5]"
  using compute_pct_change_first_last [of "[cl 4, cl 9, cl 0, cl 5]"
     "[\<lparr>timestamp = 60, open_price = 1, high = 8, low = 1, close = 4, volume = 3\<rparr>, cl 5]"]
  by (simp add: cl_def)

section \<open>The symbol resolver\<close>

lemma symbol_map_values:
  assumes "symbol_map k = Some p"
  shows "endswith p ''USDT''"
proof -
  have "(k, p) \<in> set [(''bitcoin'', ''BTCUSDT''), (''ethereum'', ''ETHUSDT''),
      (''cardano'', ''ADAUSDT''), (''solana'', ''SOLUSDT''), (''dogecoin'', ''DOGEUSDT''),
      (''litecoin'', ''LTCUSDT''), (''chainlink'', ''LINKUSDT''), (''polkadot'', ''DOTUSDT'')]"
    using assms unfolding symbol_map_def by (rule map_of_SomeD)
  then have "p \<in> {''BTCUSDT'', ''ETHUSDT'', ''ADAUSDT'', ''SOLUSDT'', ''DOGEUSDT'', ''LTCUSDT'',
      ''LINKUSDT'', ''DOTUSDT''}"
    by auto
  then show ?thesis
    by (auto simp: endswith_def)
qed

lemma resolve_mapped: "symbol_map (lower s) = Some p \<Longrightarrow> resolve s = Inr p"
  using symbol_map_values [of "lower s" p] by (simp add: resolve_def)

lemma resolve_unmapped:
  "symbol_map (lower s) = None \<Longrightarrow>
   resolve s = Inr (if endswith (upper s) ''USDT'' then upper s else upper s @ ''USDT'')"
  by (simp add: resolve_def)

lemma dom_symbol_map:
  "dom symbol_map = {''bitcoin'', ''ethereum'', ''cardano'', ''solana'', ''dogecoin'',
     ''litecoin'', ''chainlink'', ''polkadot''}"
  unfolding symbol_map_def by (simp add: dom_map_of_conv_image_fst insert_commute)

lemma card_dom_symbol_map: "card (dom symbol_map) = 8"
  by (simp add: dom_symbol_map)

lemma endswith_suffix: "endswith s suf \<longleftrightarrow> suffix suf s"
proof
  assume "endswith s suf"
  then have "s = take (length s - length suf) s @ suf"
    by (metis append_take_drop_id endswith_def)
  then show "suffix suf s" by (rule suffixI)
next
  assume "suffix suf s"
  then obtain zs where "s = zs @ suf" by (auto simp: suffix_def)
  then show "endswith s suf" by (simp add: endswith_def)
qed

lemma resolve_total: "\<exists>p. resolve s = Inr p"
  by (cases "symbol_map (lower s)") (simp_all add: resolve_unmapped resolve_mapped)

section \<open>Rounding to a double\<close>

lemma rhe_ge: "of_int m \<le> y \<Longrightarrow> m \<le> round_half_even y"
proof -
  assume "of_int m \<le> y"
  then have "m \<le> \<lfloor>y\<rfloor>" by (simp add: le_floor_iff)
  then show ?thesis by (simp add: round_half_even_def Let_def)
qed

lemma rhe_le: "y \<le> of_int m \<Longrightarrow> round_half_even y \<le> m"
proof (cases "y = of_int m")
  case True
  then show ?thesis by (simp add: round_half_even_def)
next
  case False
  assume "y \<le> of_int m"
  with False have "y < of_int m" by simp
  then have "\<lfloor>y\<rfloor> < m" by (simp add: floor_less_iff)
  then show ?thesis by (simp add: round_half_even_def Let_def)
qed

lemma rhe_near: "\<bar>of_int (round_half_even y) - y\<bar> \<le> 1 / 2"
proof -
  have "of_int \<lfloor>y\<rfloor> \<le> y" "y < of_int \<lfloor>y\<rfloor> + 1" by linarith+
  then show ?thesis by (auto simp: round_half_even_def Let_def)
qed

lemma float_exp_le:
  assumes "x \<noteq> 0" "\<bar>x\<bar> < 2 ^ n"
  shows "float_exp x < int n"
proof -
  have "log 2 \<bar>x\<bar> < real n"
    using assms by (simp add: log_less_iff powr_realpow)
  then have "\<lfloor>log 2 \<bar>x\<bar>\<rfloor> < int n" by linarith
  then show ?thesis by (simp add: float_exp_def)
qed

lemma float_exp_eq:
  assumes "2 ^ n \<le> \<bar>x\<bar>" "\<bar>x\<bar> < 2 ^ Suc n"
  shows "float_exp x = int n"
proof -
  have pos: "0 < \<bar>x\<bar>" using assms(1) by (smt (verit) zero_less_power)
  have "\<lfloor>log 2 \<bar>x\<bar>\<rfloor> = int n"
    using assms pos by (simp add: floor_log_eq_powr_iff powr_realpow powr_add)
  then show ?thesis by (simp add: float_exp_def)
qed

lemma round_float_unit:
  assumes "x \<noteq> 0" "\<bar>x\<bar> < 2 ^ 44"
  obtains p where "9 \<le> p" "round_float x = of_int (round_half_even (x * 2 ^ p)) / 2 ^ p"
proof -
  have e: "float_exp x < 44" using float_exp_le [OF assms] by simp
  define p where "p = nat (52 - float_exp x)"
  have p: "9 \<le> p" using e by (simp add: p_def)
  have "float_exp x - 52 = - int p" using e by (simp add: p_def)
  then have u: "(2::real) powi (float_exp x - 52) = inverse (2 ^ p)"
    by (simp add: power_int_minus)
  have "round_float x = of_int (round_half_even (x * 2 ^ p)) / 2 ^ p"
    using assms(1) by (simp add: round_float_def Let_def u divide_inverse)
  with p show ?thesis by (rule that)
qed

lemma round_float_ge:
  assumes "\<bar>x\<bar> < 2 ^ 44" "of_int k \<le> x"
  shows "of_int k \<le> round_float x"
proof (cases "x = 0")
  case True
  then show ?thesis using assms(2) by (simp add: round_float_def)
next
  case False
  then obtain p where r: "round_float x = of_int (round_half_even (x * 2 ^ p)) / 2 ^ p"
    using round_float_unit [OF False assms(1)] by blast
  have "of_int (k * 2 ^ p) \<le> x * 2 ^ p" using assms(2) by simp
  then have "k * 2 ^ p \<le> round_half_even (x * 2 ^ p)" by (rule rhe_ge)
  then have "of_int k * 2 ^ p \<le> real_of_int (round_half_even (x * 2 ^ p))"
    by (metis of_int_le_iff of_int_mult of_int_numeral of_int_power)
  then show ?thesis by (simp add: r pos_le_divide_eq)
qed

lemma round_float_le:
  assumes "\<bar>x\<bar> < 2 ^ 44" "x \<le> of_int k"
  shows "round_float x \<le> of_int k"
proof (cases "x = 0")
  case True
  then show ?thesis using assms(2) by (simp add: round_float_def)
next
  case False
  then obtain p where r: "round_float x = of_int (round_half_even (x * 2 ^ p)) / 2 ^ p"
    using round_float_unit [OF False assms(1)] by blast
  have "x * 2 ^ p \<le> of_int (k * 2 ^ p)" using assms(2) by simp
  then have "round_half_even (x * 2 ^ p) \<le> k * 2 ^ p" by (rule rhe_le)
  then have "real_of_int (round_half_even (x * 2 ^ p)) \<le> of_int k * 2 ^ p"
    by (metis of_int_le_iff of_int_mult of_int_numeral of_int_power)
  then show ?thesis by (simp add: r pos_divide_le_eq)
qed

lemma round_float_near:
  assumes "\<bar>x\<bar> < 2 ^ 44"
  shows "\<bar>round_float x - x\<bar> \<le> 1 / 1024"
proof (cases "x = 0")
  case True
  then show ?thesis by (simp add: round_float_def)
next
  case False
  then obtain p where p: "9 \<le> p"
    and r: "round_float x = of_int (round_half_even (x * 2 ^ p)) / 2 ^ p"
    using round_float_unit [OF False assms(1)] by blast
  have "\<bar>of_int (round_half_even (x * 2 ^ p)) - x * 2 ^ p\<bar> \<le> 1 / 2" by (rule rhe_near)
  then have "\<bar>of_int (round_half_even (x * 2 ^ p)) - x * 2 ^ p\<bar> / 2 ^ p \<le> (1 / 2) / 2 ^ p"
    by (rule divide_right_mono) simp
  moreover have "\<bar>of_int (round_half_even (x * 2 ^ p)) - x * 2 ^ p\<bar> / 2 ^ p = \<bar>round_float x - x\<bar>"
  proof -
    have "\<bar>of_int (round_half_even (x * 2 ^ p)) - x * 2 ^ p\<bar> / 2 ^ p =
        \<bar>(of_int (round_half_even (x * 2 ^ p)) - x * 2 ^ p) / 2 ^ p\<bar>"
      by simp
    also have "\<dots> = \<bar>round_float x - x\<bar>"
      by (simp only: r diff_divide_distrib) simp
    finally show ?thesis .
  qed
  moreover have "(1 / 2) / (2::real) ^ p \<le> 1 / 1024"
  proof -
    have "(2::real) ^ 9 \<le> 2 ^ p" using p by (intro power_increasing) simp_all
    then show ?thesis by (simp add: field_simps)
  qed
  ultimately show ?thesis by linarith
qed

lemma int_py_round_float_div_1000:
  assumes "\<bar>ms\<bar> < 17592186044416000"
  shows "int_py (round_float (of_int ms / 1000)) =
     (if 0 \<le> ms then ms div 1000 else - (- ms div 1000))"
proof -
  let ?x = "real_of_int ms / 1000"
  have b: "\<bar>?x\<bar> < 2 ^ 44" using assms by simp
  note near = round_float_near [OF b]
  show ?thesis
  proof (cases "0 \<le> ms")
    case True
    let ?k = "ms div 1000"
    have m: "ms = ?k * 1000 + ms mod 1000" by simp
    have lo: "of_int ?k \<le> ?x"
      by (metis floor_divide_of_int_eq of_int_floor_le of_int_numeral)
    have hi: "?x \<le> of_int ?k + 999 / 1000"
    proof -
      have "ms mod 1000 \<le> 999" using pos_mod_bound [of 1000 ms] by simp
      then have "ms \<le> ?k * 1000 + 999" using m by linarith
      then have "real_of_int ms \<le> real_of_int (?k * 1000 + 999)" by (simp only: of_int_le_iff)
      then show ?thesis by (simp add: field_simps)
    qed
    have g: "of_int ?k \<le> round_float ?x" using b lo by (rule round_float_ge)
    have l: "round_float ?x < of_int ?k + 1" using near hi by linarith
    have "0 \<le> ?k" using True by (simp add: pos_imp_zdiv_nonneg_iff)
    then have "0 \<le> round_float ?x" using g by linarith
    moreover have "\<lfloor>round_float ?x\<rfloor> = ?k" using g l by linarith
    ultimately show ?thesis using True by (simp add: int_py_def)
  next
    case False
    let ?k = "- ms div 1000"
    have m: "- ms = ?k * 1000 + (- ms) mod 1000" by simp
    have lo: "of_int ?k \<le> - ?x"
      by (metis floor_divide_of_int_eq of_int_floor_le of_int_numeral of_int_minus minus_divide_left)
    have hi: "- ?x \<le> of_int ?k + 999 / 1000"
    proof -
      have "(- ms) mod 1000 \<le> 999" using pos_mod_bound [of 1000 "- ms"] by simp
      then have "- ms \<le> ?k * 1000 + 999" using m by linarith
      then have "real_of_int (- ms) \<le> real_of_int (?k * 1000 + 999)" by (simp only: of_int_le_iff)
      then show ?thesis by (simp add: field_simps)
    qed
    have "?x \<le> of_int (- ?k)" using lo by simp
    with b have g: "round_float ?x \<le> of_int (- ?k)" by (rule round_float_le)
    have l: "of_int (- ?k) - 1 < round_float ?x" using near hi by linarith
    have k0: "0 \<le> ?k" using False by (simp add: pos_imp_zdiv_nonneg_iff)
    have c: "\<lceil>round_float ?x\<rceil> = - ?k" using g l by (simp add: ceiling_eq_iff) 
    show ?thesis
    proof (cases "0 \<le> round_float ?x")
      case True
      then have "real_of_int ?k \<le> 0" using g by simp
      then have z: "?k = 0" using k0 by simp
      then have "round_float ?x = 0" using True g by simp
      then show ?thesis using False z by (simp add: int_py_def)
    next
      case nonneg: False
      then show ?thesis using False c by (simp add: int_py_def)
    qed
  qed
qed


lemma round_float_example:
  "round_float (17592186044416999 / 1000) = 17592186044417"
proof -
  have e: "float_exp (17592186044416999 / 1000) = int 44"
    by (rule float_exp_eq) simp_all
  have u: "(2::real) powi (int 44 - 52) = 1 / 256"
    by (simp add: power_int_def power_divide)
  have "round_half_even (4503599627370751744 / 1000) = 4503599627370752"
    by (simp add: round_half_even_def)
  then show ?thesis
    by (simp add: round_float_def e Let_def u)
qed

lemma round_float_overflow:
  assumes "2 ^ 1024 \<le> x"
  shows "2 ^ 1024 \<le> round_float x"
proof -
  have pos: "0 < x" using assms by (smt (verit) zero_less_power)
  define e where "e = \<lfloor>log 2 x\<rfloor>"
  have "real 1024 \<le> log 2 x"
    using assms pos by (simp add: le_log_iff powr_realpow)
  then have e: "1024 \<le> e" unfolding e_def by linarith
  then have fe: "float_exp x = e" using pos by (simp add: float_exp_def e_def)
  define n where "n = nat e"
  have en: "e = int n" "1024 \<le> n" using e by (simp_all add: n_def)
  have "2 powr (of_int e) \<le> x"
    using pos floor_log_eq_powr_iff [of x 2 e] by (simp add: e_def)
  then have xn: "2 ^ n \<le> x" by (simp add: en powr_realpow)
  define m where "m = n - 52"
  have nm: "n = m + 52" using en by (simp add: m_def)
  have u: "(2::real) powi (float_exp x - 52) = 2 ^ m"
    by (simp add: fe en nm)
  have "of_int (2 ^ 52) \<le> x / 2 ^ m"
    using xn by (simp add: nm power_add pos_le_divide_eq mult.commute)
  then have "2 ^ 52 \<le> round_half_even (x / 2 ^ m)" by (rule rhe_ge)
  then have "(2::real) ^ 52 \<le> of_int (round_half_even (x / 2 ^ m))"
    by (metis of_int_le_iff of_int_numeral of_int_power)
  then have "(2::real) ^ 52 * 2 ^ m \<le> of_int (round_half_even (x / 2 ^ m)) * 2 ^ m"
    by (simp add: mult_right_mono)
  then have "(2::real) ^ n \<le> round_float x"
    using pos by (simp add: round_float_def Let_def u nm power_add mult.commute)
  moreover have "(2::real) ^ 1024 \<le> 2 ^ n" using en by (intro power_increasing) simp_all
  ultimately show ?thesis by linarith
qed

lemma to_float_div_1000:
  assumes "\<bar>ms\<bar> < 17592186044416000"
  shows "to_float (of_int ms / 1000) = Inr (round_float (of_int ms / 1000))"
proof -
  let ?x = "real_of_int ms / 1000"
  have b: "\<bar>?x\<bar> < 2 ^ 44" using assms by simp
  have b': "\<bar>?x\<bar> < 17592186044416" using assms by simp
  have n: "\<bar>round_float ?x - ?x\<bar> \<le> 1 / 1024" using b by (rule round_float_near)
  have "\<bar>round_float ?x\<bar> < 35184372088832" using n b' by linarith
  then have "\<bar>round_float ?x\<bar> < 2 ^ 45" by simp
  moreover have "(2::real) ^ 45 \<le> 2 ^ 1024" by (intro power_increasing) simp_all
  ultimately have "\<not> 2 ^ 1024 \<le> \<bar>round_float ?x\<bar>" by linarith
  then show ?thesis by (simp add: to_float_def Let_def)
qed

lemma to_float_overflow: "to_float (of_int (1000 * 2 ^ 1024) / 1000) = Inl OverflowError"
proof -
  have "(2::real) ^ 1024 \<le> round_float (2 ^ 1024)" by (rule round_float_overflow) simp
  then have "2 ^ 1024 \<le> \<bar>round_float (2 ^ 1024)\<bar>" by linarith
  then show ?thesis by (simp add: to_float_def Let_def)
qed

section \<open>The fetch stage\<close>

lemma length_five: "length xs = 5 \<Longrightarrow> \<exists>a b c d e. xs = [a, b, c, d, e]"
  by (auto simp: eval_nat_numeral length_Suc_conv)

text \<open>
  A record of the provider's shape with parsable prices: the result is decided by the
  division at index 0.
\<close>

lemma convert_kline_shape:
  assumes "length prices = 5" and "\<forall>s \<in> set prices. pf s \<noteq> None"
  shows "convert_kline pf (raw_kline ms prices trailing) =
     (case to_float (of_int ms / 1000) of
        Inl e \<Rightarrow> Inl e
      | Inr q \<Rightarrow>
         Inr \<lparr>timestamp = int_py q, open_price = the (pf (prices ! 0)),
              high = the (pf (prices ! 1)), low = the (pf (prices ! 2)),
              close = the (pf (prices ! 3)), volume = the (pf (prices ! 4))\<rparr>)"
proof -
  obtain a b c d e where p: "prices = [a, b, c, d, e]"
    using length_five [OF assms(1)] by blast
  obtain va vb vc vd ve where v: "pf a = Some va" "pf b = Some vb" "pf c = Some vc"
      "pf d = Some vd" "pf e = Some ve"
    using assms(2) p by auto
  have sub: "subscript (raw_kline ms [a, b, c, d, e] trailing) 0 = Inr (JInt ms)"
    "subscript (raw_kline ms [a, b, c, d, e] trailing) 1 = Inr (JStr a)"
    "subscript (raw_kline ms [a, b, c, d, e] trailing) 2 = Inr (JStr b)"
    "subscript (raw_kline ms [a, b, c, d, e] trailing) 3 = Inr (JStr c)"
    "subscript (raw_kline ms [a, b, c, d, e] trailing) 4 = Inr (JStr d)"
    "subscript (raw_kline ms [a, b, c, d, e] trailing) 5 = Inr (JStr e)"
    by (simp_all add: subscript_def raw_kline_def getitem_def)
  have fl: "float_py pf (JStr a) = Inr va" "float_py pf (JStr b) = Inr vb"
    "float_py pf (JStr c) = Inr vc" "float_py pf (JStr d) = Inr vd" "float_py pf (JStr e) = Inr ve"
    by (simp_all add: float_py_def v)
  have dv: "div_1000 (JInt ms) = to_float (of_int ms / 1000)"
    by (simp add: div_1000_def)
  show ?thesis
    unfolding convert_kline_def
    by (cases "to_float (real_of_int ms / 1000)") (simp_all add: sub fl dv bind_e_def p v)
qed

lemma convert_kline_raw:
  assumes "\<bar>ms\<bar> < 17592186044416000"
    and "length prices = 5" and "\<forall>s \<in> set prices. pf s \<noteq> None"
  shows "convert_kline pf (raw_kline ms prices trailing) = Inr (decoded pf (ms, prices, trailing))"
  using convert_kline_shape [OF assms(2,3), of ms trailing]
  by (simp add: to_float_div_1000 [OF assms(1)] int_py_round_float_div_1000 [OF assms(1)]
      decoded_def)

lemma convert_loop_map:
  "\<forall>k \<in> set ks. convert_kline pf (g k) = Inr (f k) \<Longrightarrow>
   convert_loop pf (map g ks) acc = Inr (acc @ map f ks)"
  by (induction ks arbitrary: acc) (simp_all add: bind_e_def)

lemma convert_loop_raw:
  assumes "\<forall>(ms, prices, trailing) \<in> set raws.
     \<bar>ms\<bar> < 17592186044416000 \<and> length prices = 5 \<and> (\<forall>s \<in> set prices. pf s \<noteq> None)"
  shows "convert_loop pf (map (\<lambda>(ms, prices, trailing). raw_kline ms prices trailing) raws) [] =
     Inr (map (decoded pf) raws)"
proof -
  have "\<forall>r \<in> set raws. convert_kline pf ((\<lambda>(ms, prices, trailing). raw_kline ms prices trailing) r)
      = Inr (decoded pf r)"
    using assms convert_kline_raw by fastforce
  then show ?thesis using convert_loop_map [of raws pf _ "decoded pf" "[]"] by simp
qed

lemma fetch_ohlcv_body:
  assumes "resolve symbol = Inr tp" and "http tp = Body data"
  shows "fetch_ohlcv pf http symbol =
    (if data = [] then
       ([''Fetching data for '' @ tp @ ''...'', ''Error: No data found for '' @ tp], Inl (SystemExit 1))
     else if length data < 10 then
       ([''Fetching data for '' @ tp @ ''...'',
         ''Warning: Only '' @ str_nat (length data) @ '' minutes of data available (expected 60)'',
         ''Error: Insufficient data for analysis (need at least 10 minutes)''], Inl (SystemExit 1))
     else
       ([''Fetching data for '' @ tp @ ''...''] @
        (if length data < 60 then
           [''Warning: Only '' @ str_nat (length data) @ '' minutes of data available (expected 60)'']
         else []) @
        (case convert_loop pf data [] of Inl e \<Rightarrow> []
         | Inr cs \<Rightarrow> [''Successfully fetched '' @ str_nat (length cs) @ '' minutes of OHLCV data'']),
        convert_loop pf data []))"
  using assms by (simp add: fetch_ohlcv_def Let_def split: sum.splits)

lemma main_fetch_error:
  "snd (fetch_ohlcv pf http symbol) = Inl e \<Longrightarrow>
   main pf http io_error symbol output = (fst (fetch_ohlcv pf http symbol), Inl e)"
  by (cases "fetch_ohlcv pf http symbol") (simp add: main_def)

section \<open>Claims about the resolver and the fetcher\<close>

text \<open>
  Claim C4. For every input whose lower-cased form is a key of the symbol mapping, which
  has eight entries, the resolver returns the mapped trading pair as it is, before any
  suffix is considered; resolving \<^verbatim>\<open>bitcoin\<close> gives \<^verbatim>\<open>BTCUSDT\<close>.
\<close>

theorem resolve_mapping_precedence:
  "(symbol_map (lower s) = Some p \<longrightarrow> resolve s = Inr p) \<and>
   card (dom symbol_map) = 8 \<and>
   resolve ''bitcoin'' = Inr ''BTCUSDT''"
proof -
  have "lower ''bitcoin'' = ''bitcoin''" by code_simp
  moreover have "symbol_map ''bitcoin'' = Some ''BTCUSDT''" by (simp add: symbol_map_def)
  ultimately have "resolve ''bitcoin'' = Inr ''BTCUSDT''" by (simp add: resolve_mapped)
  then show ?thesis by (simp add: resolve_mapped card_dom_symbol_map)
qed

theorem resolve_mapping_precedence_witness:
  "resolve ''Ethereum'' = Inr ''ETHUSDT'' \<and> resolve ''DOGECOIN'' = Inr ''DOGEUSDT''"
proof -
  have l: "lower ''Ethereum'' = ''ethereum''" "lower ''DOGECOIN'' = ''dogecoin''" by code_simp+
  have m: "symbol_map ''ethereum'' = Some ''ETHUSDT''" "symbol_map ''dogecoin'' = Some ''DOGEUSDT''"
    by (simp_all add: symbol_map_def)
  show ?thesis
    using resolve_mapping_precedence [of "''Ethereum''" "''ETHUSDT''"]
      resolve_mapping_precedence [of "''DOGECOIN''" "''DOGEUSDT''"]
    by (simp add: l m)
qed

text \<open>
  Claim C5. For every input whose lower-cased form is not a key of the mapping, the
  resolver returns the upper-cased input when that already ends with \<^verbatim>\<open>USDT\<close>, and the
  upper-cased input followed by \<^verbatim>\<open>USDT\<close> otherwise; resolving \<^verbatim>\<open>XRP\<close> gives
  \<^verbatim>\<open>XRPUSDT\<close> and resolving \<^verbatim>\<open>ethusdt\<close> gives \<^verbatim>\<open>ETHUSDT\<close>.
\<close>

theorem resolve_unmapped_suffix:
  "(symbol_map (lower s) = None \<longrightarrow>
      resolve s = Inr (if suffix ''USDT'' (upper s) then upper s else upper s @ ''USDT'')) \<and>
   resolve ''XRP'' = Inr ''XRPUSDT'' \<and>
   resolve ''ethusdt'' = Inr ''ETHUSDT''"
proof -
  have l: "lower ''XRP'' = ''xrp''" "upper ''XRP'' = ''XRP''"
    "lower ''ethusdt'' = ''ethusdt''" "upper ''ethusdt'' = ''ETHUSDT''" by code_simp+
  have m: "symbol_map ''xrp'' = None" "symbol_map ''ethusdt'' = None"
    by (simp_all add: symbol_map_def)
  have e: "endswith ''ETHUSDT'' ''USDT''" "\<not> endswith ''XRP'' ''USDT''"
    by (simp_all add: endswith_def)
  have "resolve ''XRP'' = Inr ''XRPUSDT''" "resolve ''ethusdt'' = Inr ''ETHUSDT''"
    using resolve_unmapped [of "''XRP''"] resolve_unmapped [of "''ethusdt''"]
    by (simp_all add: l m e)
  then show ?thesis by (simp add: resolve_unmapped endswith_suffix)
qed

theorem resolve_unmapped_suffix_witness:
  "resolve ''bnbUsdt'' = Inr ''BNBUSDT'' \<and> resolve ''ada'' = Inr ''ADAUSDT''"
proof -
  have l: "lower ''bnbUsdt'' = ''bnbusdt''" "upper ''bnbUsdt'' = ''BNBUSDT''"
    "lower ''ada'' = ''ada''" "upper ''ada'' = ''ADA''" by code_simp+
  have m: "symbol_map ''bnbusdt'' = None" "symbol_map ''ada'' = None"
    by (simp_all add: symbol_map_def)
  have e: "suffix ''USDT'' ''BNBUSDT''" "\<not> suffix ''USDT'' ''ADA''"
    by (simp_all add: suffix_to_prefix)
  show ?thesis
    using resolve_unmapped_suffix [of "''bnbUsdt''"] resolve_unmapped_suffix [of "''ada''"]
    by (simp add: l m e)
qed

text \<open>
  Claim C3. What the fetch stage does depends on the number of candles in the response.
  No candle: the no-data error is printed and the run ends with exit status 1. One to
  nine candles: the insufficient-data error is printed and the run ends with exit status
  1. Ten to fifty-nine candles: a warning is printed and the records are decoded. Sixty
  candles or more: the records are decoded and no warning is printed.
\<close>

theorem fetch_candle_count_policy:
  assumes "resolve symbol = Inr tp" and "http tp = Body data"
  shows
    "(data = [] \<longrightarrow>
        fetch_ohlcv pf http symbol =
          ([''Fetching data for '' @ tp @ ''...'', ''Error: No data found for '' @ tp],
           Inl (SystemExit 1)) \<and>
        exit_status (snd (main pf http io_error symbol output)) = 1) \<and>
     (1 \<le> length data \<and> length data < 10 \<longrightarrow>
        fetch_ohlcv pf http symbol =
          ([''Fetching data for '' @ tp @ ''...'',
            ''Warning: Only '' @ str_nat (length data) @ '' minutes of data available (expected 60)'',
            ''Error: Insufficient data for analysis (need at least 10 minutes)''],
           Inl (SystemExit 1)) \<and>
        exit_status (snd (main pf http io_error symbol output)) = 1) \<and>
     (10 \<le> length data \<and> length data < 60 \<longrightarrow>
        snd (fetch_ohlcv pf http symbol) = convert_loop pf data [] \<and>
        take 2 (fst (fetch_ohlcv pf http symbol)) =
          [''Fetching data for '' @ tp @ ''...'',
           ''Warning: Only '' @ str_nat (length data) @ '' minutes of data available (expected 60)'']) \<and>
     (60 \<le> length data \<longrightarrow>
        snd (fetch_ohlcv pf http symbol) = convert_loop pf data [] \<and>
        fst (fetch_ohlcv pf http symbol) =
          (''Fetching data for '' @ tp @ ''...'') #
          (case convert_loop pf data [] of
             Inl e \<Rightarrow> []
           | Inr cs \<Rightarrow> [''Successfully fetched '' @ str_nat (length cs) @ '' minutes of OHLCV data'']))"
proof -
  note f = fetch_ohlcv_body [where http = http and pf = pf, OF assms]
  have m: "exit_status (snd (main pf http io_error symbol output)) = 1"
    if "snd (fetch_ohlcv pf http symbol) = Inl (SystemExit 1)"
    using main_fetch_error [OF that, of io_error "output"] by (simp add: exit_status_def)
  have c1: "data = [] \<longrightarrow>
        fetch_ohlcv pf http symbol =
          ([''Fetching data for '' @ tp @ ''...'', ''Error: No data found for '' @ tp],
           Inl (SystemExit 1)) \<and>
        exit_status (snd (main pf http io_error symbol output)) = 1"
    using m by (simp add: f)
  have c2: "1 \<le> length data \<and> length data < 10 \<longrightarrow>
        fetch_ohlcv pf http symbol =
          ([''Fetching data for '' @ tp @ ''...'',
            ''Warning: Only '' @ str_nat (length data) @ '' minutes of data available (expected 60)'',
            ''Error: Insufficient data for analysis (need at least 10 minutes)''],
           Inl (SystemExit 1)) \<and>
        exit_status (snd (main pf http io_error symbol output)) = 1"
  proof
    assume a: "1 \<le> length data \<and> length data < 10"
    then have ne: "data \<noteq> []" by auto
    have "fetch_ohlcv pf http symbol =
          ([''Fetching data for '' @ tp @ ''...'',
            ''Warning: Only '' @ str_nat (length data) @ '' minutes of data available (expected 60)'',
            ''Error: Insufficient data for analysis (need at least 10 minutes)''],
           Inl (SystemExit 1))"
      using a ne by (simp add: f)
    then show "fetch_ohlcv pf http symbol =
          ([''Fetching data for '' @ tp @ ''...'',
            ''Warning: Only '' @ str_nat (length data) @ '' minutes of data available (expected 60)'',
            ''Error: Insufficient data for analysis (need at least 10 minutes)''],
           Inl (SystemExit 1)) \<and>
        exit_status (snd (main pf http io_error symbol output)) = 1"
      using m by simp
  qed
  have c3: "10 \<le> length data \<and> length data < 60 \<longrightarrow>
        snd (fetch_ohlcv pf http symbol) = convert_loop pf data [] \<and>
        take 2 (fst (fetch_ohlcv pf http symbol)) =
          [''Fetching data for '' @ tp @ ''...'',
           ''Warning: Only '' @ str_nat (length data) @ '' minutes of data available (expected 60)'']"
  proof
    assume a: "10 \<le> length data \<and> length data < 60"
    then have ne: "data \<noteq> []" by auto
    show "snd (fetch_ohlcv pf http symbol) = convert_loop pf data [] \<and>
        take 2 (fst (fetch_ohlcv pf http symbol)) =
          [''Fetching data for '' @ tp @ ''...'',
           ''Warning: Only '' @ str_nat (length data) @ '' minutes of data available (expected 60)'']"
      using a ne by (simp add: f)
  qed
  have c4: "60 \<le> length data \<longrightarrow>
        snd (fetch_ohlcv pf http symbol) = convert_loop pf data [] \<and>
        fst (fetch_ohlcv pf http symbol) =
          (''Fetching data for '' @ tp @ ''...'') #
          (case convert_loop pf data [] of
             Inl e \<Rightarrow> []
           | Inr cs \<Rightarrow> [''Successfully fetched '' @ str_nat (length cs) @ '' minutes of OHLCV data''])"
  proof
    assume a: "60 \<le> length data"
    then have ne: "data \<noteq> []" by auto
    show "snd (fetch_ohlcv pf http symbol) = convert_loop pf data [] \<and>
        fst (fetch_ohlcv pf http symbol) =
          (''Fetching data for '' @ tp @ ''...'') #
          (case convert_loop pf data [] of
             Inl e \<Rightarrow> []
           | Inr cs \<Rightarrow> [''Successfully fetched '' @ str_nat (length cs) @ '' minutes of OHLCV data''])"
      using a ne by (simp add: f)
  qed
  from c1 c2 c3 c4 show ?thesis by (intro conjI)
qed

text \<open>Facts for evaluating the fetch stage on concrete responses.\<close>

lemma resolve_bitcoin: "resolve ''bitcoin'' = Inr ''BTCUSDT''"
proof -
  have "lower ''bitcoin'' = ''bitcoin''" by code_simp
  moreover have "symbol_map ''bitcoin'' = Some ''BTCUSDT''" by (simp add: symbol_map_def)
  ultimately show ?thesis by (simp add: resolve_mapped)
qed

lemma convert_loop_replicate:
  assumes "\<bar>ms\<bar> < 17592186044416000"
    and "length prices = 5" and "\<forall>s \<in> set prices. pf s \<noteq> None"
  shows "convert_loop pf (replicate n (raw_kline ms prices trailing)) [] =
     Inr (replicate n (decoded pf (ms, prices, trailing)))"
  using convert_loop_raw [of "replicate n (ms, prices, trailing)" pf] assms by simp

theorem fetch_candle_count_policy_witness:
  "fetch_ohlcv (\<lambda>s. Some 1) (\<lambda>p. Body []) ''bitcoin'' =
     ([''Fetching data for BTCUSDT...'', ''Error: No data found for BTCUSDT''], Inl (SystemExit 1)) \<and>
   exit_status (snd (main (\<lambda>s. Some 1) (\<lambda>p. Body []) None ''bitcoin'' ''out.csv'')) = 1 \<and>
   fetch_ohlcv (\<lambda>s. Some 1) (\<lambda>p. Body (replicate 5 JNull)) ''bitcoin'' =
     ([''Fetching data for BTCUSDT...'',
       ''Warning: Only 5 minutes of data available (expected 60)'',
       ''Error: Insufficient data for analysis (need at least 10 minutes)''], Inl (SystemExit 1)) \<and>
   exit_status (snd (main (\<lambda>s. Some 1) (\<lambda>p. Body (replicate 5 JNull)) None ''bitcoin'' ''out.csv'')) = 1 \<and>
   fetch_ohlcv (\<lambda>s. Some 1)
       (\<lambda>p. Body (replicate 12 (raw_kline 60999 [''1'', ''1'', ''1'', ''1'', ''1''] []))) ''bitcoin'' =
     ([''Fetching data for BTCUSDT...'',
       ''Warning: Only 12 minutes of data available (expected 60)'',
       ''Successfully fetched 12 minutes of OHLCV data''],
      Inr (replicate 12
        \<lparr>timestamp = 60, open_price = 1, high = 1, low = 1, close = 1, volume = 1\<rparr>)) \<and>
   fetch_ohlcv (\<lambda>s. Some 1)
       (\<lambda>p. Body (replicate 60 (raw_kline 60999 [''1'', ''1'', ''1'', ''1'', ''1''] []))) ''bitcoin'' =
     ([''Fetching data for BTCUSDT...'', ''Successfully fetched 60 minutes of OHLCV data''],
      Inr (replicate 60
        \<lparr>timestamp = 60, open_price = 1, high = 1, low = 1, close = 1, volume = 1\<rparr>))"
proof -
  let ?pf = "\<lambda>s :: string. Some (1 :: real)"
  let ?k = "raw_kline 60999 [''1'', ''1'', ''1'', ''1'', ''1''] []"
  let ?c = "\<lparr>timestamp = 60, open_price = 1, high = 1, low = 1, close = 1, volume = 1\<rparr>"
  have cv: "convert_loop ?pf (replicate n ?k) [] = Inr (replicate n ?c)" for n
    using convert_loop_replicate
      [where ms = 60999 and prices = "[''1'', ''1'', ''1'', ''1'', ''1'']" and pf = ?pf
         and n = n and trailing = "[]"]
    by (simp add: decoded_def)
  have n: "str_nat 5 = ''5''" "str_nat 12 = ''12''" "str_nat 60 = ''60''"
    by (simp_all add: digit_char_def str_nat.simps)
  have w0: "fetch_ohlcv ?pf (\<lambda>p. Body []) ''bitcoin'' =
     ([''Fetching data for BTCUSDT...'', ''Error: No data found for BTCUSDT''], Inl (SystemExit 1)) \<and>
   exit_status (snd (main ?pf (\<lambda>p. Body []) None ''bitcoin'' ''out.csv'')) = 1"
    using fetch_candle_count_policy [OF resolve_bitcoin, of "\<lambda>p. Body []" "[]" ?pf None "''out.csv''"]
    by simp
  have w5: "fetch_ohlcv ?pf (\<lambda>p. Body (replicate 5 JNull)) ''bitcoin'' =
     ([''Fetching data for BTCUSDT...'',
       ''Warning: Only 5 minutes of data available (expected 60)'',
       ''Error: Insufficient data for analysis (need at least 10 minutes)''], Inl (SystemExit 1)) \<and>
   exit_status (snd (main ?pf (\<lambda>p. Body (replicate 5 JNull)) None ''bitcoin'' ''out.csv'')) = 1"
    using fetch_candle_count_policy [OF resolve_bitcoin,
        of "\<lambda>p. Body (replicate 5 JNull)" "replicate 5 JNull" ?pf None "''out.csv''"]
    by (simp add: n)
  have s12: "snd (fetch_ohlcv ?pf (\<lambda>p. Body (replicate 12 ?k)) ''bitcoin'') = Inr (replicate 12 ?c)"
    using fetch_candle_count_policy [OF resolve_bitcoin,
        of "\<lambda>p. Body (replicate 12 ?k)" "replicate 12 ?k" ?pf None "''out.csv''"]
    by (simp add: cv)
  have s60: "fetch_ohlcv ?pf (\<lambda>p. Body (replicate 60 ?k)) ''bitcoin'' =
     ([''Fetching data for BTCUSDT...'', ''Successfully fetched 60 minutes of OHLCV data''],
      Inr (replicate 60 ?c))"
    using fetch_candle_count_policy [OF resolve_bitcoin,
        of "\<lambda>p. Body (replicate 60 ?k)" "replicate 60 ?k" ?pf None "''out.csv''"]
    by (simp add: cv n prod_eq_iff)
  have f12: "fetch_ohlcv ?pf (\<lambda>p. Body (replicate 12 ?k)) ''bitcoin'' =
     ([''Fetching data for BTCUSDT...'',
       ''Warning: Only 12 minutes of data available (expected 60)'',
       ''Successfully fetched 12 minutes of OHLCV data''], Inr (replicate 12 ?c))"
    using s12 fetch_ohlcv_body [OF resolve_bitcoin, of "\<lambda>p. Body (replicate 12 ?k)" "replicate 12 ?k" ?pf]
    by (simp add: cv n)
  from w0 w5 f12 s60 show ?thesis by (intro conjI) simp_all
qed

text \<open>
  The float division of line 89 is exact only up to a point. From an open time of
  \<open>2 ^ 44\<close> seconds on, a remainder of 999 milliseconds is rounded up to the next second;
  an integer beyond the range of a double raises \<open>OverflowError\<close>.
\<close>

lemma convert_kline_overflow:
  "convert_kline (\<lambda>s. Some 1) (raw_kline (1000 * 2 ^ 1024) [''1'', ''1'', ''1'', ''1'', ''1''] []) =
     Inl OverflowError"
  using convert_kline_shape
    [of "[''1'', ''1'', ''1'', ''1'', ''1'']" "\<lambda>s. Some 1" "1000 * 2 ^ 1024" "[]"]
    to_float_overflow
  by simp

lemma convert_kline_rounded_up:
  "convert_kline (\<lambda>s. Some 1)
     (raw_kline 17592186044416999 [''1'', ''1'', ''1'', ''1'', ''1''] []) =
   Inr \<lparr>timestamp = 17592186044417, open_price = 1, high = 1, low = 1, close = 1, volume = 1\<rparr>"
proof -
  have "to_float (real_of_int 17592186044416999 / 1000) = Inr 17592186044417"
    by (simp add: to_float_def round_float_example)
  then show ?thesis
    using convert_kline_shape
      [of "[''1'', ''1'', ''1'', ''1'', ''1'']" "\<lambda>s. Some 1" 17592186044416999 "[]"]
    by (simp add: int_py_def)
qed

text \<open>
  Claim C6, as stated, fails: at the open time 17592186044416999 the timestamp decoded is
  17592186044417, one more than the open time integer-divided by 1000; and at the open
  time -1500 it is -1, the quotient rounded towards zero, where the integer division
  gives -2.
\<close>

theorem convert_klines_positional_counterexample:
  "convert_loop (\<lambda>s. Some 1)
     [raw_kline 17592186044416999 [''1'', ''1'', ''1'', ''1'', ''1''] []] [] =
     Inr [\<lparr>timestamp = 17592186044417, open_price = 1, high = 1, low = 1, close = 1,
            volume = 1\<rparr>] \<and>
   (17592186044416999 :: int) div 1000 = 17592186044416 \<and>
   convert_loop (\<lambda>s. Some 1) [raw_kline (- 1500) [''1'', ''1'', ''1'', ''1'', ''1''] []] [] =
     Inr [\<lparr>timestamp = - 1, open_price = 1, high = 1, low = 1, close = 1, volume = 1\<rparr>] \<and>
   (- 1500 :: int) div 1000 = - 2"
proof -
  have "convert_kline (\<lambda>s. Some 1) (raw_kline (- 1500) [''1'', ''1'', ''1'', ''1'', ''1''] []) =
      Inr \<lparr>timestamp = - 1, open_price = 1, high = 1, low = 1, close = 1, volume = 1\<rparr>"
    using convert_kline_raw [of "- 1500" "[''1'', ''1'', ''1'', ''1'', ''1'']" "\<lambda>s. Some 1" "[]"]
    by (simp add: decoded_def)
  then show ?thesis
    by (simp add: convert_kline_rounded_up bind_e_def)
qed

text \<open>
  Claim C6, amended. For records of the shape the provider sends (\<open>raw_kline\<close>) whose open
  time \<open>ms\<close> is less than \<open>2 ^ 44\<close> seconds in absolute value (17592186044416000
  milliseconds) and whose five price fields are strings of finite numbers (\<open>pf s \<noteq> None\<close>),
  every record is decoded by position: the timestamp is \<open>ms / 1000\<close> with the fractional part dropped towards zero,
  which is \<open>ms div 1000\<close> for \<open>ms \<ge> 0\<close> and \<open>- (- ms div 1000)\<close> for \<open>ms < 0\<close>; the five prices
  are the parsed fields at indices 1 to 5; what follows them is ignored; and the candles
  come in the order of the records. The theorem gives the decoded list for the loop of
  lines 86-95 and for \<^verbatim>\<open>fetch_ohlcv\<close> as a whole.
\<close>

theorem convert_klines_positional:
  assumes "\<forall>(ms, prices, trailing) \<in> set raws.
             \<bar>ms\<bar> < 17592186044416000 \<and> length prices = 5 \<and> (\<forall>s \<in> set prices. pf s \<noteq> None)"
  shows "convert_loop pf (map (\<lambda>(ms, prices, trailing). raw_kline ms prices trailing) raws) [] =
           Inr (map (decoded pf) raws) \<and>
         (resolve symbol = Inr tp \<and> 10 \<le> length raws \<and>
          http tp = Body (map (\<lambda>(ms, prices, trailing). raw_kline ms prices trailing) raws) \<longrightarrow>
            snd (fetch_ohlcv pf http symbol) = Inr (map (decoded pf) raws))"
proof -
  let ?data = "map (\<lambda>(ms, prices, trailing). raw_kline ms prices trailing) raws"
  have c: "convert_loop pf ?data [] = Inr (map (decoded pf) raws)"
    using assms by (rule convert_loop_raw)
  have "snd (fetch_ohlcv pf http symbol) = Inr (map (decoded pf) raws)"
    if "resolve symbol = Inr tp" "10 \<le> length raws" "http tp = Body ?data"
  proof -
    have ne: "raws \<noteq> []" using that(2) by auto
    show ?thesis
      using fetch_ohlcv_body [where http = http and pf = pf, OF that(1) that(3)] that(2) ne
      by (simp add: c)
  qed
  then show ?thesis using c by blast
qed

theorem convert_klines_positional_witness:
  "convert_loop (map_of [(''1.5'', 3 / 2), (''2'', 2), (''10'', 10)])
     [raw_kline 1700000000999 [''1.5'', ''2'', ''1.5'', ''2'', ''10''] [JInt 1700000059999, JStr ''0''],
      raw_kline (- 1500) [''2'', ''2'', ''2'', ''2'', ''10''] []] [] =
   Inr [\<lparr>timestamp = 1700000000, open_price = 3 / 2, high = 2, low = 3 / 2, close = 2, volume = 10\<rparr>,
        \<lparr>timestamp = - 1, open_price = 2, high = 2, low = 2, close = 2, volume = 10\<rparr>]"
proof -
  let ?pf = "map_of [(''1.5'', 3 / 2 :: real), (''2'', 2), (''10'', 10)]"
  let ?raws = "[(1700000000999 :: int, [''1.5'', ''2'', ''1.5'', ''2'', ''10''],
                 [JInt 1700000059999, JStr ''0'']),
                (- 1500, [''2'', ''2'', ''2'', ''2'', ''10''], [])]"
  have h: "\<forall>(ms, prices, trailing) \<in> set ?raws.
             \<bar>ms\<bar> < 17592186044416000 \<and> length prices = 5 \<and> (\<forall>s \<in> set prices. ?pf s \<noteq> None)"
    by (simp del: not_None_eq)
  have d: "map (decoded ?pf) ?raws =
      [\<lparr>timestamp = 1700000000, open_price = 3 / 2, high = 2, low = 3 / 2, close = 2, volume = 10\<rparr>,
       \<lparr>timestamp = - 1, open_price = 2, high = 2, low = 2, close = 2, volume = 10\<rparr>]"
    by (simp add: decoded_def)
  have m: "map (\<lambda>(ms, prices, trailing). raw_kline ms prices trailing) ?raws =
      [raw_kline 1700000000999 [''1.5'', ''2'', ''1.5'', ''2'', ''10''] [JInt 1700000059999, JStr ''0''],
       raw_kline (- 1500) [''2'', ''2'', ''2'', ''2'', ''10''] []]"
    by simp
  show ?thesis
    using convert_klines_positional [OF h, THEN conjunct1] unfolding m d .
qed

section \<open>The writer\<close>

lemma is_digit_digit_char: "d < 10 \<Longrightarrow> is_digit (digit_char d)"
  unfolding is_digit_def digit_char_def by (rule nth_mem) simp

lemma str_nat_digits: "str_nat n \<noteq> [] \<and> list_all is_digit (str_nat n)"
proof (induction n rule: str_nat.induct)
  case (1 n)
  show ?case
  proof (cases "n < 10")
    case True
    then show ?thesis by (simp add: str_nat.simps [of n] is_digit_digit_char)
  next
    case False
    then show ?thesis
      using "1.IH" by (simp add: str_nat.simps [of n] is_digit_digit_char)
  qed
qed

lemma is_digit_not_minus: "is_digit c \<Longrightarrow> c \<noteq> CHR ''-''"
  by (auto simp: is_digit_def)

lemma strip_sign_minus: "strip_sign (CHR ''-'' # t) = t"
  by (simp add: strip_sign_def)

lemma strip_sign_digits: "s \<noteq> [] \<Longrightarrow> list_all is_digit s \<Longrightarrow> strip_sign (s @ t) = s @ t"
  by (cases s) (auto simp: strip_sign_def is_digit_not_minus)

lemma is_int_str_str_int: "is_int_str (str_int i)"
proof (cases "i < 0")
  case True
  then show ?thesis
    using str_nat_digits [of "nat (- i)"] by (simp add: str_int_def is_int_str_def strip_sign_minus)
next
  case False
  then show ?thesis
    using str_nat_digits [of "nat i"] strip_sign_digits [of "str_nat (nat i)" "[]"]
    by (simp add: str_int_def is_int_str_def)
qed

lemma fixed2_shape:
  assumes "ds \<noteq> []" "list_all is_digit ds" "is_digit d1" "is_digit d2"
  shows "fixed2_rev (rev (ds @ ''.'' @ [d1, d2]))"
  using assms by simp

lemma is_fixed2_fixed_2f: "is_fixed2 (fixed_2f x)"
proof -
  define n where "n = nat (round_half_even (\<bar>x\<bar> * 100))"
  let ?body = "str_nat (n div 100) @ ''.'' @ [digit_char (n mod 100 div 10), digit_char (n mod 10)]"
  have d: "str_nat (n div 100) \<noteq> []" "list_all is_digit (str_nat (n div 100))"
    using str_nat_digits by auto
  have d1: "is_digit (digit_char (n mod 100 div 10))" by (rule is_digit_digit_char) simp
  have d2: "is_digit (digit_char (n mod 10))" by (rule is_digit_digit_char) simp
  have body: "fixed2_rev (rev ?body)" using d d1 d2 by (rule fixed2_shape)
  have f: "fixed_2f x = (if x < 0 then ''-'' else []) @ ?body"
    by (simp add: fixed_2f_def n_def Let_def)
  show ?thesis
  proof (cases "x < 0")
    case True
    then have "strip_sign (fixed_2f x) = ?body" by (simp add: f strip_sign_minus)
    then show ?thesis using body by (simp add: is_fixed2_def)
  next
    case False
    then have "strip_sign (fixed_2f x) = ?body"
      using strip_sign_digits [OF d] by (simp add: f)
    then show ?thesis using body by (simp add: is_fixed2_def)
  qed
qed

lemma is_fixed2_format_2f: "is_finite v \<Longrightarrow> is_fixed2 (format_2f v)"
  by (cases v)
    (simp_all add: is_finite_def format_2f_def is_fixed2_fixed_2f,
     simp add: is_fixed2_def strip_sign_def is_digit_def)

lemma not_fixed2_names: "\<not> is_fixed2 ''inf''" "\<not> is_fixed2 ''-inf''" "\<not> is_fixed2 ''nan''"
  by (simp_all add: is_fixed2_def strip_sign_def is_digit_def)

lemma plain_digit: "is_digit c \<Longrightarrow> plain c"
  by (simp add: plain_def)

lemma plain_str_nat: "list_all plain (str_nat n)"
  using str_nat_digits [of n] by (auto simp: list_all_iff plain_digit)

lemma plain_str_int: "list_all plain (str_int i)"
  using plain_str_nat by (simp add: str_int_def plain_def)

lemma plain_fixed_2f: "list_all plain (fixed_2f x)"
proof -
  have "plain (digit_char (d mod 10))" for d
    by (rule plain_digit, rule is_digit_digit_char) simp
  moreover have "plain (digit_char (d mod 100 div 10))" for d
    by (rule plain_digit, rule is_digit_digit_char) simp
  ultimately show ?thesis
    using plain_str_nat by (simp add: fixed_2f_def Let_def plain_def)
qed

lemma plain_format_2f: "list_all plain (format_2f v)"
  by (cases v) (simp_all add: format_2f_def plain_fixed_2f, simp_all add: plain_def is_digit_def)

lemma plain_not_special:
  "plain c \<Longrightarrow> c \<noteq> CHR '','' \<and> c \<noteq> CHR 0x22 \<and> c \<noteq> CHR 0x0D \<and> c \<noteq> CHR 0x0A"
  by (auto simp: plain_def is_digit_def)

lemma csv_field_plain: "list_all plain f \<Longrightarrow> csv_field f = f"
  using plain_not_special by (auto simp: csv_field_def needs_quote_def list_all_iff list_ex_iff)

lemma plain_row_fields: "\<forall>f \<in> set (row_fields sma_list pct i row). list_all plain f"
  by (simp add: row_fields_def plain_str_int plain_format_2f)

lemma csv_row_row_fields:
  "csv_row (row_fields sma_list pct i row) = join '','' (row_fields sma_list pct i row) @ crlf"
proof -
  have "map csv_field (row_fields sma_list pct i row) = row_fields sma_list pct i row"
    using plain_row_fields [of sma_list pct i row] by (simp add: map_idI csv_field_plain)
  then show ?thesis by (simp add: csv_row_def)
qed

lemma csv_row_fieldnames:
  "csv_row fieldnames = ''timestamp,open,high,low,close,volume,sma_10,pct_change'' @ crlf"
  by (simp add: csv_row_def fieldnames_def csv_field_def needs_quote_def)

lemma output_row_fields: "output_row sma_list pct i row = Inr (row_fields sma_list pct i row)"
  by (simp add: output_row_def row_fields_def bind_e_def getitem_def)

lemma write_rows_enumerate:
  "write_rows sma_list pct (enumerate n data) written =
     Inr (written @ concat (map (\<lambda>(i, row). csv_row (row_fields sma_list pct i row)) (enumerate n data)))"
  by (induction data arbitrary: n written) (simp_all add: output_row_fields bind_e_def)

lemma set_join: "set (join sep fs) \<subseteq> set sep \<union> \<Union> (set ` set fs)"
  by (induction sep fs rule: join.induct) auto

lemma row_no_line_break:
  "CHR 0x0D \<notin> set (join '','' (row_fields sma_list pct i row)) \<and>
   CHR 0x0A \<notin> set (join '','' (row_fields sma_list pct i row))"
proof -
  have "c \<noteq> CHR 0x0D \<and> c \<noteq> CHR 0x0A" if "c \<in> set (join '','' (row_fields sma_list pct i row))" for c
  proof -
    from that set_join [of "'',''" "row_fields sma_list pct i row"]
    consider "c = CHR '',''" | f where "f \<in> set (row_fields sma_list pct i row)" "c \<in> set f"
      by auto
    then show ?thesis
    proof cases
      case 1
      then show ?thesis by simp
    next
      case 2
      then have "plain c" using plain_row_fields [of sma_list pct i row] by (auto simp: list_all_iff)
      then show ?thesis using plain_not_special by blast
    qed
  qed
  then show ?thesis by blast
qed

lemma write_csv_rows:
  "write_csv None data sma_list pct out_path =
     ([''Data successfully written to '' @ out_path],
      Inr (file_of_lines (''timestamp,open,high,low,close,volume,sma_10,pct_change'' #
             map (\<lambda>(i, row). join '','' (row_fields sma_list pct i row)) (enumerate 0 data))))"
proof -
  have "concat (map (\<lambda>(i, row). csv_row (row_fields sma_list pct i row)) xs) =
      concat (map (\<lambda>l. l @ crlf) (map (\<lambda>(i, row). join '','' (row_fields sma_list pct i row)) xs))" for xs
    by (induction xs) (auto simp: csv_row_row_fields)
  then show ?thesis
    by (simp add: write_csv_def write_rows_enumerate csv_row_fieldnames file_of_lines_def)
qed

lemma rows_nth:
  assumes "i < length data"
  shows "map (\<lambda>(i, row). join '','' (row_fields sma_list pct i row)) (enumerate 0 data) ! i =
     join '','' (row_fields sma_list pct i (data ! i))"
  using assms by (simp add: nth_enumerate_eq)

lemma singleton_list: "length xs = 1 \<Longrightarrow> xs ! 0 = a \<Longrightarrow> xs = [a]"
  by (cases xs) simp_all

lemma pair_list: "length xs = 2 \<Longrightarrow> xs ! 0 = a \<Longrightarrow> xs ! 1 = b \<Longrightarrow> xs = [a, b]"
  by (cases xs; cases "tl xs") simp_all

text \<open>A destination that cannot be opened ends the run with exit status 1.\<close>

lemma write_csv_io_error:
  "write_csv (Some e) data sma_list pct out_path =
     ([''Error writing CSV file: '' @ e], Inl (SystemExit 1))"
  by (simp add: write_csv_def)

section \<open>Claims about the writer\<close>

text \<open>
  Claim C7, as stated, fails: a price, an SMA value or the percentage change that is an
  infinity or a NaN is written by name, which is not fixed-point notation with two
  decimals.
\<close>

theorem write_csv_layout_counterexample:
  "write_csv None
     [\<lparr>timestamp = 0, open_price = Finite 1, high = PosInf, low = NegInf, close = NaN,
       volume = Finite 0\<rparr>] [NaN] NaN ''o.csv'' =
   ([''Data successfully written to o.csv''],
    Inr (file_of_lines [''timestamp,open,high,low,close,volume,sma_10,pct_change'',
                        ''0,1.00,inf,-inf,nan,0.00,nan,nan''])) \<and>
   \<not> is_fixed2 ''inf'' \<and> \<not> is_fixed2 ''-inf'' \<and> \<not> is_fixed2 ''nan''"
proof -
  have f: "str_int 0 = ''0''" "fixed_2f 0 = ''0.00''" "fixed_2f 1 = ''1.00''"
    by (simp_all add: str_int_def fixed_2f_def round_half_even_def str_nat.simps digit_char_def)
  show ?thesis
    by (simp add: write_csv_rows row_fields_def format_2f_def f not_fixed2_names)
qed

text \<open>
  Claim C7, amended. For a series of \<open>n\<close> candles whose prices are finite, with an SMA
  list of the same length whose values are finite and a finite percentage change, the
  file written consists of exactly \<open>n + 1\<close> lines, each ended by a line break (carriage
  return and line feed, the line terminator of the \<^verbatim>\<open>csv\<close> writer): the header
  \<^verbatim>\<open>timestamp,open,high,low,close,volume,sma_10,pct_change\<close> and one row per candle, made
  of eight comma-separated fields. The timestamp is a plain integer, each of the seven
  decimal fields is in fixed-point notation with exactly two digits after the point, no
  field contains a comma, and the last field is the same \<open>format_2f pct\<close> on every row.
\<close>

theorem write_csv_layout:
  assumes "length sma_list = length data"
    and "list_all finite_candle data" and "list_all is_finite sma_list" and "is_finite pct"
  shows "\<exists>rows.
      write_csv None data sma_list pct out_path =
        ([''Data successfully written to '' @ out_path],
         Inr (file_of_lines (''timestamp,open,high,low,close,volume,sma_10,pct_change'' # rows))) \<and>
      length rows = length data \<and>
      (\<forall>i < length data.
         (let fs = [str_int (timestamp (data ! i)), format_2f (open_price (data ! i)),
                    format_2f (high (data ! i)), format_2f (low (data ! i)),
                    format_2f (close (data ! i)), format_2f (volume (data ! i)),
                    format_2f (sma_list ! i), format_2f pct]
          in rows ! i = join '','' fs \<and>
             is_int_str (fs ! 0) \<and>
             list_all is_fixed2 (tl fs) \<and>
             list_all (\<lambda>f. CHR '','' \<notin> set f) fs \<and>
             CHR 0x0D \<notin> set (rows ! i) \<and> CHR 0x0A \<notin> set (rows ! i)))"
proof -
  let ?rows = "map (\<lambda>(i, row). join '','' (row_fields sma_list pct i row)) (enumerate 0 data)"
  have nc: "CHR '','' \<notin> set f" if "list_all plain f" for f
    using that plain_not_special by (auto simp: list_all_iff)
  have r: "(let fs = [str_int (timestamp (data ! i)), format_2f (open_price (data ! i)),
                    format_2f (high (data ! i)), format_2f (low (data ! i)),
                    format_2f (close (data ! i)), format_2f (volume (data ! i)),
                    format_2f (sma_list ! i), format_2f pct]
          in ?rows ! i = join '','' fs \<and>
             is_int_str (fs ! 0) \<and>
             list_all is_fixed2 (tl fs) \<and>
             list_all (\<lambda>f. CHR '','' \<notin> set f) fs \<and>
             CHR 0x0D \<notin> set (?rows ! i) \<and> CHR 0x0A \<notin> set (?rows ! i))"
    if i: "i < length data" for i
  proof -
    have e: "?rows ! i = join '','' (row_fields sma_list pct i (data ! i))"
      using i by (rule rows_nth)
    have fields: "row_fields sma_list pct i (data ! i) =
             [str_int (timestamp (data ! i)), format_2f (open_price (data ! i)),
              format_2f (high (data ! i)), format_2f (low (data ! i)),
              format_2f (close (data ! i)), format_2f (volume (data ! i)),
              format_2f (sma_list ! i), format_2f pct]"
      using i assms(1) by (simp add: row_fields_def)
    have "finite_candle (data ! i)" using assms(2) i by (simp add: list_all_length)
    then have fc: "is_finite (open_price (data ! i))" "is_finite (high (data ! i))"
      "is_finite (low (data ! i))" "is_finite (close (data ! i))" "is_finite (volume (data ! i))"
      by (simp_all add: finite_candle_def)
    have fs: "is_finite (sma_list ! i)" using assms(1,3) i by (simp add: list_all_length)
    have shapes: "list_all is_fixed2
        [format_2f (open_price (data ! i)), format_2f (high (data ! i)),
         format_2f (low (data ! i)), format_2f (close (data ! i)),
         format_2f (volume (data ! i)), format_2f (sma_list ! i), format_2f pct]"
      using fc fs assms(4) by (simp add: is_fixed2_format_2f)
    have commas: "list_all (\<lambda>f. CHR '','' \<notin> set f)
        [str_int (timestamp (data ! i)), format_2f (open_price (data ! i)),
         format_2f (high (data ! i)), format_2f (low (data ! i)),
         format_2f (close (data ! i)), format_2f (volume (data ! i)),
         format_2f (sma_list ! i), format_2f pct]"
      by (simp add: nc plain_str_int plain_format_2f)
    show ?thesis
      using e shapes commas row_no_line_break [of sma_list pct i "data ! i"]
      by (simp add: Let_def fields is_int_str_str_int)
  qed
  have "length ?rows = length data" by simp
  with r write_csv_rows [of data sma_list pct out_path] show ?thesis by blast
qed

theorem write_csv_layout_witness:
  "write_csv None
     [\<lparr>timestamp = 1700000000, open_price = Finite 100, high = Finite (203 / 2),
       low = Finite (397 / 4), close = Finite (801 / 8), volume = Finite (99 / 8)\<rparr>,
      \<lparr>timestamp = 1700000060, open_price = Finite (801 / 8), high = Finite 102,
       low = Finite 100, close = Finite 101, volume = NegZero\<rparr>]
     [Finite (801 / 8), Finite (1609 / 16)] (Finite (- (1 / 512))) ''o.csv'' =
   ([''Data successfully written to o.csv''],
    Inr (file_of_lines [''timestamp,open,high,low,close,volume,sma_10,pct_change'',
                        ''1700000000,100.00,101.50,99.25,100.12,12.38,100.12,-0.00'',
                        ''1700000060,100.12,102.00,100.00,101.00,-0.00,100.56,-0.00'']))"
proof -
  let ?c0 = "\<lparr>timestamp = 1700000000, open_price = Finite 100, high = Finite (203 / 2),
       low = Finite (397 / 4), close = Finite (801 / 8), volume = Finite (99 / 8)\<rparr>"
  let ?c1 = "\<lparr>timestamp = 1700000060, open_price = Finite (801 / 8), high = Finite 102,
       low = Finite 100, close = Finite 101, volume = NegZero\<rparr>"
  let ?sma = "[Finite (801 / 8), Finite (1609 / 16)]"
  let ?pct = "Finite (- (1 / 512))"
  have h: "length ?sma = length [?c0, ?c1]" "list_all finite_candle [?c0, ?c1]"
    "list_all is_finite ?sma" "is_finite ?pct"
    by (simp_all add: finite_candle_def is_finite_def)
  obtain rows where w: "write_csv None [?c0, ?c1] ?sma ?pct ''o.csv'' =
        ([''Data successfully written to '' @ ''o.csv''],
         Inr (file_of_lines (''timestamp,open,high,low,close,volume,sma_10,pct_change'' # rows)))"
    and l: "length rows = length [?c0, ?c1]"
    and r: "\<forall>i < length [?c0, ?c1].
         (let fs = [str_int (timestamp ([?c0, ?c1] ! i)), format_2f (open_price ([?c0, ?c1] ! i)),
                    format_2f (high ([?c0, ?c1] ! i)), format_2f (low ([?c0, ?c1] ! i)),
                    format_2f (close ([?c0, ?c1] ! i)), format_2f (volume ([?c0, ?c1] ! i)),
                    format_2f (?sma ! i), format_2f ?pct]
          in rows ! i = join '','' fs \<and>
             is_int_str (fs ! 0) \<and>
             list_all is_fixed2 (tl fs) \<and>
             list_all (\<lambda>f. CHR '','' \<notin> set f) fs \<and>
             CHR 0x0D \<notin> set (rows ! i) \<and> CHR 0x0A \<notin> set (rows ! i))"
    using write_csv_layout [OF h, of "''o.csv''"] by blast
  have f: "str_int 1700000000 = ''1700000000''" "str_int 1700000060 = ''1700000060''"
    "fixed_2f 100 = ''100.00''" "fixed_2f 101 = ''101.00''" "fixed_2f 102 = ''102.00''"
    "fixed_2f (203 / 2) = ''101.50''" "fixed_2f (397 / 4) = ''99.25''"
    "fixed_2f (801 / 8) = ''100.12''" "fixed_2f (99 / 8) = ''12.38''"
    "fixed_2f (1609 / 16) = ''100.56''" "fixed_2f (- (1 / 512)) = ''-0.00''"
    by (simp_all add: str_int_def fixed_2f_def round_half_even_def str_nat.simps digit_char_def)
  have g: "format_2f (Finite x) = fixed_2f x" "format_2f NegZero = ''-0.00''" for x
    by (simp_all add: format_2f_def)
  have r0: "rows ! 0 = ''1700000000,100.00,101.50,99.25,100.12,12.38,100.12,-0.00''"
    using r by (simp add: Let_def f g)
  have r1: "rows ! 1 = ''1700000060,100.12,102.00,100.00,101.00,-0.00,100.56,-0.00''"
    using r by (simp add: Let_def f g)
  have l2: "length rows = 2" using l by simp
  have "rows = [''1700000000,100.00,101.50,99.25,100.12,12.38,100.12,-0.00'',
                ''1700000060,100.12,102.00,100.00,101.00,-0.00,100.56,-0.00'']"
    using l2 r0 r1 by (rule pair_list)
  then show ?thesis using w by simp
qed

text \<open>
  Claim C8. When the SMA list is shorter than the series, the write still succeeds, and
  every row at or beyond the length of the SMA list has an empty \<^verbatim>\<open>sma_10\<close> field; the
  rows before it carry their SMA value.
\<close>

theorem write_csv_short_sma:
  assumes "length sma_list < length data"
  shows "\<exists>rows.
      write_csv None data sma_list pct out_path =
        ([''Data successfully written to '' @ out_path],
         Inr (file_of_lines (''timestamp,open,high,low,close,volume,sma_10,pct_change'' # rows))) \<and>
      length rows = length data \<and>
      (\<forall>i < length data. length sma_list \<le> i \<longrightarrow>
         rows ! i =
           join '',''
             [str_int (timestamp (data ! i)), format_2f (open_price (data ! i)),
              format_2f (high (data ! i)), format_2f (low (data ! i)),
              format_2f (close (data ! i)), format_2f (volume (data ! i)),
              [], format_2f pct]) \<and>
      (\<forall>i < length sma_list.
         rows ! i =
           join '',''
             [str_int (timestamp (data ! i)), format_2f (open_price (data ! i)),
              format_2f (high (data ! i)), format_2f (low (data ! i)),
              format_2f (close (data ! i)), format_2f (volume (data ! i)),
              format_2f (sma_list ! i), format_2f pct])"
proof -
  let ?rows = "map (\<lambda>(i, row). join '','' (row_fields sma_list pct i row)) (enumerate 0 data)"
  have a: "?rows ! i =
           join '',''
             [str_int (timestamp (data ! i)), format_2f (open_price (data ! i)),
              format_2f (high (data ! i)), format_2f (low (data ! i)),
              format_2f (close (data ! i)), format_2f (volume (data ! i)),
              [], format_2f pct]"
    if "i < length data" "length sma_list \<le> i" for i
    using that rows_nth [OF that(1), of sma_list pct] by (simp add: row_fields_def)
  have b: "?rows ! i =
           join '',''
             [str_int (timestamp (data ! i)), format_2f (open_price (data ! i)),
              format_2f (high (data ! i)), format_2f (low (data ! i)),
              format_2f (close (data ! i)), format_2f (volume (data ! i)),
              format_2f (sma_list ! i), format_2f pct]"
    if "i < length sma_list" for i
  proof -
    have "i < length data" using that assms by simp
    then show ?thesis using that rows_nth [of i data sma_list pct] by (simp add: row_fields_def)
  qed
  have "length ?rows = length data" by simp
  with a b write_csv_rows [of data sma_list pct out_path] show ?thesis by blast
qed

theorem write_csv_short_sma_witness:
  "write_csv None [as_floats (cl 1), as_floats (cl 2)] [Finite 1] (Finite 50) ''o.csv'' =
   ([''Data successfully written to o.csv''],
    Inr (file_of_lines [''timestamp,open,high,low,close,volume,sma_10,pct_change'',
                        ''0,0.00,0.00,0.00,1.00,0.00,1.00,50.00'',
                        ''0,0.00,0.00,0.00,2.00,0.00,,50.00'']))"
proof -
  let ?d = "[as_floats (cl 1), as_floats (cl 2)]"
  have h: "length [Finite 1] < length ?d" by simp
  obtain rows where w: "write_csv None ?d [Finite 1] (Finite 50) ''o.csv'' =
        ([''Data successfully written to '' @ ''o.csv''],
         Inr (file_of_lines (''timestamp,open,high,low,close,volume,sma_10,pct_change'' # rows)))"
    and l: "length rows = length ?d"
    and r1: "\<forall>i < length ?d. length [Finite 1] \<le> i \<longrightarrow>
         rows ! i =
           join '',''
             [str_int (timestamp (?d ! i)), format_2f (open_price (?d ! i)),
              format_2f (high (?d ! i)), format_2f (low (?d ! i)),
              format_2f (close (?d ! i)), format_2f (volume (?d ! i)),
              [], format_2f (Finite 50)]"
    and r0: "\<forall>i < length [Finite 1].
         rows ! i =
           join '',''
             [str_int (timestamp (?d ! i)), format_2f (open_price (?d ! i)),
              format_2f (high (?d ! i)), format_2f (low (?d ! i)),
              format_2f (close (?d ! i)), format_2f (volume (?d ! i)),
              format_2f ([Finite 1] ! i), format_2f (Finite 50)]"
    using write_csv_short_sma [OF h, of "Finite 50" "''o.csv''"] by blast
  have f: "str_int 0 = ''0''" "fixed_2f 0 = ''0.00''" "fixed_2f 1 = ''1.00''"
    "fixed_2f 2 = ''2.00''" "fixed_2f 50 = ''50.00''"
    by (simp_all add: str_int_def fixed_2f_def round_half_even_def str_nat.simps digit_char_def)
  have g: "format_2f (Finite x) = fixed_2f x" for x
    by (simp add: format_2f_def)
  have e0: "rows ! 0 = ''0,0.00,0.00,0.00,1.00,0.00,1.00,50.00''"
    using r0 by (simp add: f g cl_def as_floats_def)
  have e1: "rows ! 1 = ''0,0.00,0.00,0.00,2.00,0.00,,50.00''"
    using r1 by (simp add: f g cl_def as_floats_def)
  have l2: "length rows = 2" using l by simp
  have "rows = [''0,0.00,0.00,0.00,1.00,0.00,1.00,50.00'',
      ''0,0.00,0.00,0.00,2.00,0.00,,50.00'']"
    using l2 e0 e1 by (rule pair_list)
  then show ?thesis using w by simp
qed

end
